theory Spec2Isabelle
  imports Complex_Main
begin

section \<open>Python values, exceptions and string operations\<close>

text \<open>
  Both modules raise plain \<open>Exception\<close> objects that differ only in their message, and let
  the exceptions of the interpreter and of the HTTP library pass through. An exception is
  therefore a class together with the text that \<open>str(e)\<close> yields; the messages of built-in
  exceptions follow CPython's wording.
\<close>

datatype exn_class =
    Exception | AttributeError | TypeError | ValueError | IndexError | KeyError | OSError
  | OverflowError
  | JSONDecodeError | Timeout | ConnectTimeout | ConnectionError | RequestException

datatype py_exn = Exn exn_class string

fun exn_str :: "py_exn \<Rightarrow> string" where
  "exn_str (Exn c m) = m"

fun exn_cls :: "py_exn \<Rightarrow> exn_class" where
  "exn_cls (Exn c m) = c"

text \<open>The class hierarchy of the HTTP library, as far as the \<open>except\<close> clauses test it.\<close>

definition is_Timeout :: "py_exn \<Rightarrow> bool" where
  "is_Timeout e = (exn_cls e = Timeout \<or> exn_cls e = ConnectTimeout)"

definition is_ConnectionError :: "py_exn \<Rightarrow> bool" where
  "is_ConnectionError e = (exn_cls e = ConnectionError \<or> exn_cls e = ConnectTimeout)"

definition is_RequestException :: "py_exn \<Rightarrow> bool" where
  "is_RequestException e =
     (exn_cls e = Timeout \<or> exn_cls e = ConnectTimeout \<or> exn_cls e = ConnectionError
      \<or> exn_cls e = RequestException \<or> exn_cls e = JSONDecodeError)"

definition is_IOError :: "py_exn \<Rightarrow> bool" where
  "is_IOError e = (exn_cls e = OSError \<or> is_RequestException e)"

type_synonym 'a result = "py_exn + 'a"

definition and_then :: "'a result \<Rightarrow> ('a \<Rightarrow> 'b result) \<Rightarrow> 'b result" where
  "and_then r f = (case r of Inl e \<Rightarrow> Inl e | Inr v \<Rightarrow> f v)"

text \<open>
  The values that \<open>json.loads\<close> and \<open>Response.json()\<close> produce; \<open>JNull\<close> is Python's
  \<open>None\<close>. An object is kept as an association list that \<open>map_of\<close> reads. \<open>JFloat\<close> is a
  finite float, as the rational it denotes; \<open>JInf\<close> is an infinity (positive when its flag
  is true) and \<open>JNaN\<close> a not-a-number, which \<open>json.loads\<close> accepts as well.
\<close>

datatype json =
    JNull | JBool bool | JInt int | JFloat rat | JInf bool | JNaN | JStr string
  | JArr "json list" | JObj "(string \<times> json) list"

definition truthy :: "json \<Rightarrow> bool" where
  "truthy v =
     (case v of JNull \<Rightarrow> False | JBool b \<Rightarrow> b | JInt n \<Rightarrow> n \<noteq> 0 | JFloat x \<Rightarrow> x \<noteq> 0
      | JInf p \<Rightarrow> True | JNaN \<Rightarrow> True
      | JStr s \<Rightarrow> s \<noteq> [] | JArr xs \<Rightarrow> xs \<noteq> [] | JObj kvs \<Rightarrow> kvs \<noteq> [])"

definition type_name :: "json \<Rightarrow> string" where
  "type_name v =
     (case v of JNull \<Rightarrow> ''NoneType'' | JBool b \<Rightarrow> ''bool'' | JInt n \<Rightarrow> ''int''
      | JFloat x \<Rightarrow> ''float'' | JInf p \<Rightarrow> ''float'' | JNaN \<Rightarrow> ''float''
      | JStr s \<Rightarrow> ''str'' | JArr xs \<Rightarrow> ''list'' | JObj kvs \<Rightarrow> ''dict'')"

definition quoted :: "string \<Rightarrow> string" where
  "quoted s = [CHR 0x27] @ s @ [CHR 0x27]"

definition no_attribute :: "json \<Rightarrow> string \<Rightarrow> py_exn" where
  "no_attribute v a =
     Exn AttributeError (quoted (type_name v) @ '' object has no attribute '' @ quoted a)"

text \<open>\<open>v.get(k, d)\<close>; \<open>v.get(k)\<close> is \<open>py_get v k JNull\<close>.\<close>

definition py_get :: "json \<Rightarrow> string \<Rightarrow> json \<Rightarrow> json result" where
  "py_get v k d =
     (case v of
        JObj kvs \<Rightarrow> Inr (case map_of kvs k of None \<Rightarrow> d | Some x \<Rightarrow> x)
      | _ \<Rightarrow> Inl (no_attribute v ''get''))"

text \<open>\<open>a or b\<close>\<close>

definition py_or :: "json \<Rightarrow> json \<Rightarrow> json" where
  "py_or a b = (if truthy a then a else b)"

text \<open>\<open>v[0]\<close>; the keys of a decoded object are strings, so \<open>0\<close> is never among them.\<close>

definition py_first :: "json \<Rightarrow> json result" where
  "py_first v =
     (case v of
        JArr xs \<Rightarrow> (case xs of [] \<Rightarrow> Inl (Exn IndexError ''list index out of range'')
                   | x # _ \<Rightarrow> Inr x)
      | JStr s \<Rightarrow> (case s of [] \<Rightarrow> Inl (Exn IndexError ''string index out of range'')
                   | c # _ \<Rightarrow> Inr (JStr [c]))
      | JObj kvs \<Rightarrow> Inl (Exn KeyError ''0'')
      | _ \<Rightarrow> Inl (Exn TypeError (quoted (type_name v) @ '' object is not subscriptable'')))"

text \<open>The elements a \<open>for\<close> loop over \<open>v\<close> visits.\<close>

definition py_iter :: "json \<Rightarrow> json list result" where
  "py_iter v =
     (case v of
        JArr xs \<Rightarrow> Inr xs
      | JStr s \<Rightarrow> Inr (map (\<lambda>c. JStr [c]) s)
      | JObj kvs \<Rightarrow> Inr (map JStr (remdups (map fst kvs)))
      | _ \<Rightarrow> Inl (Exn TypeError (quoted (type_name v) @ '' object is not iterable'')))"

subsection \<open>Strings\<close>

text \<open>
  A character is a code point below 256. On these, \<open>str.isspace\<close> (which is also what
  \<open>\s\<close> matches and what \<open>strip()\<close> and \<open>int()\<close> remove) holds for the codes listed, the
  decimal digits (\<open>\d\<close>) are \<open>0\<close> to \<open>9\<close>, and \<open>\w\<close> is \<open>isalnum\<close> or the underscore.
\<close>

definition py_isspace :: "char \<Rightarrow> bool" where
  "py_isspace c =
     ((of_char c :: nat) \<in> {9, 10, 11, 12, 13, 28, 29, 30, 31, 32, 133, 160})"

definition py_isdigit :: "char \<Rightarrow> bool" where
  "py_isdigit c = (48 \<le> (of_char c :: nat) \<and> (of_char c :: nat) \<le> 57)"

definition py_isupper :: "char \<Rightarrow> bool" where
  "py_isupper c =
     (let n = (of_char c :: nat)
      in (65 \<le> n \<and> n \<le> 90) \<or> (192 \<le> n \<and> n \<le> 222 \<and> n \<noteq> 215))"

definition py_isalnum :: "char \<Rightarrow> bool" where
  "py_isalnum c =
     (let n = (of_char c :: nat)
      in (48 \<le> n \<and> n \<le> 57) \<or> (65 \<le> n \<and> n \<le> 90) \<or> (97 \<le> n \<and> n \<le> 122)
         \<or> n \<in> {170, 178, 179, 181, 185, 186, 188, 189, 190}
         \<or> (192 \<le> n \<and> n \<noteq> 215 \<and> n \<noteq> 247))"

definition py_isword :: "char \<Rightarrow> bool" where
  "py_isword c = (py_isalnum c \<or> c = CHR ''_'')"

definition lower_char :: "char \<Rightarrow> char" where
  "lower_char c = (if py_isupper c then char_of ((of_char c :: nat) + 32) else c)"

definition py_lower :: "string \<Rightarrow> string" where
  "py_lower s = map lower_char s"

definition py_strip :: "string \<Rightarrow> string" where
  "py_strip s = rev (dropWhile py_isspace (rev (dropWhile py_isspace s)))"

text \<open>\<open>s.strip(c)\<close> for a single character \<open>c\<close>.\<close>

definition py_strip_char :: "char \<Rightarrow> string \<Rightarrow> string" where
  "py_strip_char c s = rev (dropWhile (\<lambda>x. x = c) (rev (dropWhile (\<lambda>x. x = c) s)))"

definition py_startswith :: "string \<Rightarrow> string \<Rightarrow> bool" where
  "py_startswith p s = (take (length p) s = p)"

definition py_endswith :: "string \<Rightarrow> string \<Rightarrow> bool" where
  "py_endswith p s = (take (length p) (rev s) = rev p)"

text \<open>\<open>p in s\<close>\<close>

fun py_contains :: "string \<Rightarrow> string \<Rightarrow> bool" where
  "py_contains p [] = (p = [])"
| "py_contains p (c # cs) = (py_startswith p (c # cs) \<or> py_contains p cs)"

text \<open>\<open>s.split(sep)\<close> for a single character \<open>sep\<close>; the result is never empty.\<close>

fun py_split :: "char \<Rightarrow> string \<Rightarrow> string list" where
  "py_split sep [] = [[]]"
| "py_split sep (c # cs) =
     (if c = sep then [] # py_split sep cs
      else (case py_split sep cs of [] \<Rightarrow> [[c]] | w # ws \<Rightarrow> (c # w) # ws))"

subsection \<open>Integers and text\<close>

definition digit_val :: "char \<Rightarrow> int" where
  "digit_val c = int (of_char c) - 48"

definition digits_val :: "string \<Rightarrow> int" where
  "digits_val ds = foldl (\<lambda>acc c. 10 * acc + digit_val c) 0 ds"

definition digit_char :: "int \<Rightarrow> char" where
  "digit_char n = char_of (48 + n)"

function str_digits :: "int \<Rightarrow> string" where
  "str_digits n =
     (if n < 10 then [digit_char n] else str_digits (n div 10) @ [digit_char (n mod 10)])"
  by pat_completeness auto
termination
  by (relation "measure nat") auto

declare str_digits.simps [simp del]

text \<open>\<open>str(n)\<close>, also what an f-string prints for an integer.\<close>

definition str_int :: "int \<Rightarrow> string" where
  "str_int n = (if n < 0 then CHR ''-'' # str_digits (- n) else str_digits n)"

text \<open>
  \<open>repr(s)\<close> of a string: double quotes when the string holds a single quote and no double
  quote, single quotes otherwise; the quote and the backslash are escaped, and so is every
  character that is not printable. The message of an invalid literal shows the first 200
  characters of it.
\<close>

definition hex_digit :: "nat \<Rightarrow> char" where
  "hex_digit n = (if n < 10 then char_of (48 + n) else char_of (87 + n))"

definition py_isprintable :: "char \<Rightarrow> bool" where
  "py_isprintable c =
     (let n = (of_char c :: nat)
      in 32 \<le> n \<and> n \<noteq> 127 \<and> \<not> (128 \<le> n \<and> n \<le> 160) \<and> n \<noteq> 173)"

definition repr_char :: "char \<Rightarrow> char \<Rightarrow> string" where
  "repr_char q c =
     (if c = q \<or> c = CHR 0x5C then [CHR 0x5C, c]
      else if c = CHR 0x09 then [CHR 0x5C, CHR ''t'']
      else if c = CHR 0x0A then [CHR 0x5C, CHR ''n'']
      else if c = CHR 0x0D then [CHR 0x5C, CHR ''r'']
      else if py_isprintable c then [c]
      else [CHR 0x5C, CHR ''x'', hex_digit (of_char c div 16), hex_digit (of_char c mod 16)])"

definition py_repr :: "string \<Rightarrow> string" where
  "py_repr s =
     (let q = (if CHR 0x27 \<in> set s \<and> CHR 0x22 \<notin> set s then CHR 0x22 else CHR 0x27)
      in [q] @ concat (map (repr_char q) s) @ [q])"

text \<open>
  \<open>int(s)\<close> for a string. Surrounding whitespace and one sign are dropped; the whitespace
  that \<open>int\<close> skips leaves out the four separator controls that \<open>isspace\<close> accepts. Then
  comes a run of digits in which single underscores may stand between digits. A run that
  is empty or breaks the underscore rule is an invalid literal; a run of more than 4300
  digits exceeds the interpreter's default limit for the conversion; anything left after
  the run is an invalid literal again. All three are a \<open>ValueError\<close>.
\<close>

definition int_isspace :: "char \<Rightarrow> bool" where
  "int_isspace c = ((of_char c :: nat) \<in> {9, 10, 11, 12, 13, 32, 133, 160})"

fun underscores_ok :: "string \<Rightarrow> bool" where
  "underscores_ok [] = False"
| "underscores_ok [c] = py_isdigit c"
| "underscores_ok (c # d # cs) =
     (if py_isdigit c then
        (if d = CHR ''_'' then (case cs of [] \<Rightarrow> False | x # _ \<Rightarrow> py_isdigit x \<and> underscores_ok cs)
         else underscores_ok (d # cs))
      else False)"

definition invalid_literal :: "string \<Rightarrow> py_exn" where
  "invalid_literal s =
     Exn ValueError (''invalid literal for int() with base 10: '' @ take 200 (py_repr s))"

definition exceeds_limit :: "nat \<Rightarrow> py_exn" where
  "exceeds_limit n =
     Exn ValueError (''Exceeds the limit (4300 digits) for integer string conversion: ''
       @ ''value has '' @ str_int (int n)
       @ '' digits; use sys.set_int_max_str_digits() to increase the limit'')"

definition py_int_str :: "string \<Rightarrow> int result" where
  "py_int_str s =
     (let t = rev (dropWhile int_isspace (rev (dropWhile int_isspace s)));
          (sg, r) = (case t of [] \<Rightarrow> (1, [])
                     | c # cs \<Rightarrow> if c = CHR ''-'' then (- 1, cs)
                                else if c = CHR ''+'' then (1, cs) else (1, t));
          run = takeWhile (\<lambda>c. py_isdigit c \<or> c = CHR ''_'') r;
          rest = dropWhile (\<lambda>c. py_isdigit c \<or> c = CHR ''_'') r;
          ds = filter py_isdigit run
      in if \<not> underscores_ok run then Inl (invalid_literal s)
         else if 4300 < length ds then Inl (exceeds_limit (length ds))
         else if rest \<noteq> [] then Inl (invalid_literal s)
         else Inr (sg * digits_val ds))"

subsection \<open>Floats\<close>

text \<open>
  Python's \<open>/\<close> is true division: the result is the binary64 number nearest to the exact
  quotient, ties to even, and so is a product of floats. \<open>fl_round\<close> is that rounding: to
  53 significant bits, and to a multiple of \<open>2 ^ - 1074\<close> below the normal range. A result
  that rounds to \<open>2 ^ 1024\<close> or beyond is out of range (\<open>fl_overflow\<close>): the division of two
  integers then raises \<open>OverflowError\<close>, an operation on floats gives an infinity, on which
  \<open>int\<close> raises \<open>OverflowError\<close>. \<open>int(x)\<close> truncates towards zero.
\<close>

function bit_length :: "int \<Rightarrow> nat" where
  "bit_length n = (if n \<le> 0 then 0 else Suc (bit_length (n div 2)))"
  by pat_completeness auto
termination
  by (relation "measure nat") auto

declare bit_length.simps [simp del]

definition round_half_even :: "int \<Rightarrow> int \<Rightarrow> int" where
  "round_half_even n d =
     (let q = n div d; r = n mod d
      in if 2 * r < d then q
         else if d < 2 * r then q + 1
         else if even q then q else q + 1)"

definition fl_scale :: "int \<Rightarrow> int \<Rightarrow> int \<Rightarrow> int \<times> int" where
  "fl_scale a b e = (a * 2 ^ nat (- e), b * 2 ^ nat e)"

definition fl_exponent :: "int \<Rightarrow> int \<Rightarrow> int" where
  "fl_exponent a b =
     (let e0 = int (bit_length a) - int (bit_length b) - 53;
          (n, d) = fl_scale a b e0
      in if 2 ^ 53 \<le> n div d then e0 + 1 else e0)"

definition pow2 :: "int \<Rightarrow> rat" where
  "pow2 e = (if 0 \<le> e then 2 ^ nat e else 1 / 2 ^ nat (- e))"

definition fl_round :: "rat \<Rightarrow> rat" where
  "fl_round x =
     (if x = 0 then 0
      else let (p, q) = quotient_of \<bar>x\<bar>;
               e = max (fl_exponent p q) (- 1074);
               (n, d) = fl_scale p q e;
               m = round_half_even n d
           in sgn x * of_int m * pow2 e)"

definition fl_overflow :: "rat \<Rightarrow> bool" where
  "fl_overflow x = (2 ^ 1024 \<le> \<bar>fl_round x\<bar>)"

definition msg_inf_to_int :: string where
  "msg_inf_to_int = ''cannot convert float infinity to integer''"

definition py_int_of_float :: "rat \<Rightarrow> int" where
  "py_int_of_float x = (if 0 \<le> x then \<lfloor>x\<rfloor> else \<lceil>x\<rceil>)"

section \<open>Pattern searches\<close>

text \<open>
  None of the patterns looks behind the position it starts at, so a match at a position is a
  function of the text from there on. \<open>re.search\<close> returns the match at the leftmost
  position that has one.
\<close>

fun re_search :: "(string \<Rightarrow> 'a option) \<Rightarrow> string \<Rightarrow> 'a option" where
  "re_search m [] = m []"
| "re_search m (c # cs) = (case m (c # cs) of Some r \<Rightarrow> Some r | None \<Rightarrow> re_search m cs)"

text \<open>A literal under \<open>re.I\<close>: both sides are compared in lower case.\<close>

definition ci_prefix :: "string \<Rightarrow> string \<Rightarrow> bool" where
  "ci_prefix p s = (py_lower (take (length p) s) = py_lower p)"

definition is_quote :: "char \<Rightarrow> bool" where
  "is_quote c = (c = CHR 0x22 \<or> c = CHR 0x27)"

subsection \<open>The structured-data block\<close>

text \<open>
  \<^verbatim>\<open><script[^>]+type=["\']application/ld\+json["\'][^>]*>(.*?)</script>\<close> with
  \<open>re.S | re.I\<close>. After \<open><script\<close> the tag runs to the first \<open>>\<close>; the \<open>type\<close> attribute
  must start at least one character into that run; the group is the text up to the first
  closing tag.
\<close>

definition type_attr_at :: "string \<Rightarrow> bool" where
  "type_attr_at t =
     (ci_prefix ''type='' t \<and>
      (case drop 5 t of [] \<Rightarrow> False
       | q # u \<Rightarrow> is_quote q \<and> ci_prefix ''application/ld+json'' u \<and>
           (case drop 19 u of [] \<Rightarrow> False | q' # _ \<Rightarrow> is_quote q')))"

fun exists_suffix :: "(string \<Rightarrow> bool) \<Rightarrow> string \<Rightarrow> bool" where
  "exists_suffix P [] = P []"
| "exists_suffix P (c # cs) = (P (c # cs) \<or> exists_suffix P cs)"

fun until_close :: "string \<Rightarrow> string option" where
  "until_close [] = None"
| "until_close (c # cs) =
     (if ci_prefix ''</script>'' (c # cs) then Some []
      else map_option ((#) c) (until_close cs))"

definition match_json_ld :: "string \<Rightarrow> string option" where
  "match_json_ld s =
     (if ci_prefix ''<script'' s then
        (let rest = drop 7 s;
             run = takeWhile (\<lambda>c. c \<noteq> CHR ''>'') rest;
             after = dropWhile (\<lambda>c. c \<noteq> CHR ''>'') rest
         in if run \<noteq> [] \<and> exists_suffix type_attr_at (tl run) \<and> after \<noteq> []
            then until_close (tl after) else None)
      else None)"

text \<open>
  \<open>json.loads\<close> belongs to the standard library: it is a parameter, \<open>None\<close> when it raises.
\<close>

definition find_json_ld :: "(string \<Rightarrow> json option) \<Rightarrow> string \<Rightarrow> json" where
  "find_json_ld json_loads html_text =
     (case re_search match_json_ld html_text of
        None \<Rightarrow> JNull
      | Some g \<Rightarrow> (case json_loads (py_strip g) of None \<Rightarrow> JNull | Some j \<Rightarrow> j))"

subsection \<open>Meta tags\<close>

text \<open>
  \<^verbatim>\<open><meta property="og:title" content="([^"]+)"\<close> and its two siblings, with \<open>re.I\<close>:
  the literal, then a non-empty run of characters other than the double quote, then the
  double quote.
\<close>

definition match_meta :: "string \<Rightarrow> string \<Rightarrow> string option" where
  "match_meta lit s =
     (if ci_prefix lit s then
        (let rest = drop (length lit) s;
             run = takeWhile (\<lambda>c. c \<noteq> CHR 0x22) rest;
             after = dropWhile (\<lambda>c. c \<noteq> CHR 0x22) rest
         in if run \<noteq> [] \<and> after \<noteq> [] then Some run else None)
      else None)"

definition og_title_lit :: string where
  "og_title_lit = ''<meta property='' @ [CHR 0x22] @ ''og:title'' @ [CHR 0x22] @ '' content=''
     @ [CHR 0x22]"

definition og_image_lit :: string where
  "og_image_lit = ''<meta property='' @ [CHR 0x22] @ ''og:image'' @ [CHR 0x22] @ '' content=''
     @ [CHR 0x22]"

definition author_lit :: string where
  "author_lit = ''<meta name='' @ [CHR 0x22] @ ''author'' @ [CHR 0x22] @ '' content=''
     @ [CHR 0x22]"

subsection \<open>Direct audio links\<close>

text \<open>
  \<^verbatim>\<open>https?://[\w\-/._?=&%]+\.(?:mp3|m3u8)(?:\?[^"\'>\s]+)?\<close>. The class after the
  scheme is greedy and contains the dot and the letters of both extensions, so the
  extension matched is the last one inside the run of class characters, at least one
  character into it. The query, when there is one, is taken as far as it goes.
\<close>

definition url_char :: "char \<Rightarrow> bool" where
  "url_char c =
     (py_isword c \<or> c = CHR ''-'' \<or> c = CHR ''/'' \<or> c = CHR ''.'' \<or> c = CHR ''_''
      \<or> c = CHR ''?'' \<or> c = CHR ''='' \<or> c = CHR ''&'' \<or> c = CHR ''%'')"

definition query_char :: "char \<Rightarrow> bool" where
  "query_char c = (\<not> is_quote c \<and> c \<noteq> CHR ''>'' \<and> \<not> py_isspace c)"

definition ext_at :: "string \<Rightarrow> nat option" where
  "ext_at t =
     (if py_startswith ''.mp3'' t then Some 4
      else if py_startswith ''.m3u8'' t then Some 5 else None)"

definition after_scheme :: "string \<Rightarrow> (string \<times> string) option" where
  "after_scheme s =
     (if py_startswith ''https://'' s then Some (''https://'', drop 8 s)
      else if py_startswith ''http://'' s then Some (''http://'', drop 7 s)
      else None)"

definition match_audio_url :: "string \<Rightarrow> string option" where
  "match_audio_url s =
     (case after_scheme s of
        None \<Rightarrow> None
      | Some (scheme, rest) \<Rightarrow>
          (let run = takeWhile url_char rest;
               ks = filter (\<lambda>k. ext_at (drop k run) \<noteq> None) [1 ..< Suc (length run)]
           in if ks = [] then None
              else
                (let k = last ks;
                     e = k + the (ext_at (drop k run));
                     t = drop e rest;
                     q = (case t of [] \<Rightarrow> []
                          | c # u \<Rightarrow> if c = CHR ''?'' \<and> takeWhile query_char u \<noteq> []
                                     then c # takeWhile query_char u else [])
                 in Some (scheme @ take e rest @ q))))"

text \<open>
  \<open>re.findall\<close>: the matches from left to right, each search resuming where the previous
  match ended. The counter is the number of characters still covered by that match.
\<close>

fun findall_from :: "(string \<Rightarrow> string option) \<Rightarrow> nat \<Rightarrow> string \<Rightarrow> string list" where
  "findall_from m k [] = []"
| "findall_from m (Suc k) (c # cs) = findall_from m k cs"
| "findall_from m 0 (c # cs) =
     (case m (c # cs) of
        None \<Rightarrow> findall_from m 0 cs
      | Some g \<Rightarrow> g # findall_from m (length g - 1) cs)"

fun dedup_urls :: "string set \<Rightarrow> string list \<Rightarrow> string list" where
  "dedup_urls seen [] = []"
| "dedup_urls seen (u # us) =
     (if u \<notin> seen then u # dedup_urls (insert u seen) us else dedup_urls seen us)"

definition find_direct_audio_urls :: "string \<Rightarrow> string list" where
  "find_direct_audio_urls html_text =
     dedup_urls {} (findall_from match_audio_url 0 html_text)"

subsection \<open>The duration fragment\<close>

text \<open>
  \<^verbatim>\<open>"duration"\s*:\s*"PT?(?:(\d+)M)?(?:(\d+)S)?"\<close>. Every choice in it is forced by the
  next character, so there is at most one way to match at a position. The result is the
  pair of groups; a group that took no part is \<open>None\<close>.
\<close>

definition digits_then :: "char \<Rightarrow> string \<Rightarrow> (string option \<times> string)" where
  "digits_then k r =
     (let ds = takeWhile py_isdigit r
      in (case dropWhile py_isdigit r of
            [] \<Rightarrow> (None, r)
          | x # t \<Rightarrow> if ds \<noteq> [] \<and> x = k then (Some ds, t) else (None, r)))"

definition duration_lit :: string where
  "duration_lit = [CHR 0x22] @ ''duration'' @ [CHR 0x22]"

definition match_duration :: "string \<Rightarrow> (string option \<times> string option) option" where
  "match_duration s =
     (if py_startswith duration_lit s then
        (case dropWhile py_isspace (drop (length duration_lit) s) of
           [] \<Rightarrow> None
         | c # r1 \<Rightarrow>
             if c \<noteq> CHR '':'' then None
             else
               (let r2 = dropWhile py_isspace r1
                in if py_startswith ([CHR 0x22] @ ''P'') r2 then
                     (let r3 = drop 2 r2;
                          r4 = (case r3 of [] \<Rightarrow> [] | x # xs \<Rightarrow> if x = CHR ''T'' then xs else r3);
                          (g1, r5) = digits_then CHR ''M'' r4;
                          (g2, r6) = digits_then CHR ''S'' r5
                      in (case r6 of [] \<Rightarrow> None
                          | y # _ \<Rightarrow> if y = CHR 0x22 then Some (g1, g2) else None))
                   else None))
      else None)"

text \<open>\<open>int(m.group(i) or 0)\<close>; a group that matched is a non-empty string of digits.\<close>

definition group_int :: "string option \<Rightarrow> int result" where
  "group_int g = (case g of None \<Rightarrow> Inr 0 | Some ds \<Rightarrow> py_int_str ds)"

section \<open>The metadata record and the HTTP interface\<close>

record format =
  format_id :: json
  ext :: string
  url :: json

record info =
  title :: json
  thumbnail :: json
  uploader :: json
  duration :: json
  formats :: "format list"

definition empty_info :: info where
  "empty_info =
     \<lparr>title = JNull, thumbnail = JNull, uploader = JNull, duration = JNull, formats = []\<rparr>"

text \<open>
  What the code reads of a response of the HTTP library: the status, the body as text, the
  result of \<open>json()\<close>, the \<open>Content-Length\<close> header, and what \<open>iter_content\<close> yields, which
  is a chunk of bytes or an exception raised in the middle of the body.
\<close>

datatype stream_item = Chunk string | StreamError py_exn

record response =
  status_code :: int
  resp_text :: string
  resp_json :: "json result"
  content_length :: "string option"
  iter_content :: "stream_item list"

text \<open>
  The two components of \<open>urlparse(url)\<close> that are read. \<open>urlparse\<close> belongs to the
  standard library and is a parameter; what it raises is a \<open>ValueError\<close>, kept as its message.
\<close>

record url_parts =
  netloc :: string
  path :: string

type_synonym url_parser = "string \<Rightarrow> string + url_parts"

definition call_urlparse :: "url_parser \<Rightarrow> string \<Rightarrow> url_parts result" where
  "call_urlparse urlparse u =
     (case urlparse u of Inl m \<Rightarrow> Inl (Exn ValueError m) | Inr parsed \<Rightarrow> Inr parsed)"

section \<open>The HTML metadata extractor\<close>

definition json_ld_thumbnail :: "json \<Rightarrow> json result" where
  "json_ld_thumbnail img = (case img of JArr xs \<Rightarrow> py_first img | _ \<Rightarrow> Inr img)"

definition json_ld_uploader :: "json \<Rightarrow> json \<Rightarrow> json result" where
  "json_ld_uploader author old =
     (case author of
        JObj kvs \<Rightarrow> py_get author ''name'' JNull
      | JStr a \<Rightarrow> Inr author
      | _ \<Rightarrow> Inr old)"

definition audio_ext :: "string \<Rightarrow> string" where
  "audio_ext content =
     (if py_endswith ''.mp3'' (py_lower content) then ''mp3''
      else hd (py_split CHR ''?'' (last (py_split CHR ''.'' content))))"

definition json_ld_formats :: "json \<Rightarrow> format list result" where
  "json_ld_formats audio =
     (case audio of
        JObj kvs \<Rightarrow>
          and_then (py_get audio ''contentUrl'' JNull) (\<lambda>cu.
          and_then (py_get audio ''url'' JNull) (\<lambda>u.
            let content = py_or cu u
            in if truthy content then
                 (case content of
                    JStr c \<Rightarrow> Inr [\<lparr>format_id = JStr ''audio'', ext = audio_ext c, url = content\<rparr>]
                  | _ \<Rightarrow> Inl (no_attribute content ''lower''))
               else Inr []))
      | _ \<Rightarrow> Inr [])"

text \<open>The body of \<open>if json_ld:\<close>; an exception in it leaves the function.\<close>

definition apply_json_ld :: "json \<Rightarrow> info \<Rightarrow> info result" where
  "apply_json_ld json_ld i =
     and_then (py_get json_ld ''name'' JNull) (\<lambda>name.
     and_then (py_get json_ld ''headline'' JNull) (\<lambda>headline.
     and_then (py_get json_ld ''image'' JNull) (\<lambda>img.
     and_then (json_ld_thumbnail img) (\<lambda>thumb.
     and_then (py_get json_ld ''author'' JNull) (\<lambda>author.
     and_then (json_ld_uploader author (uploader i)) (\<lambda>upl.
     and_then (py_get json_ld ''audio'' JNull) (\<lambda>audio.
     and_then (json_ld_formats audio) (\<lambda>fs.
       Inr (i\<lparr>title := py_or name (py_or headline (title i)), thumbnail := thumb,
              uploader := upl, formats := formats i @ fs\<rparr>)))))))))"

definition meta_fallback :: "string \<Rightarrow> string \<Rightarrow> json \<Rightarrow> json" where
  "meta_fallback lit html_text cur =
     (if \<not> truthy cur then
        (case re_search (match_meta lit) html_text of None \<Rightarrow> cur | Some g \<Rightarrow> JStr g)
      else cur)"

definition direct_ext :: "string \<Rightarrow> string" where
  "direct_ext u =
     (if py_endswith ''.mp3'' (py_lower u) then ''mp3''
      else if py_contains ''.m3u8'' (py_lower u) then ''m3u8''
      else last (py_split CHR ''.'' u))"

definition direct_format :: "string \<Rightarrow> format" where
  "direct_format u = \<lparr>format_id = JStr (direct_ext u), ext = direct_ext u, url = JStr u\<rparr>"

text \<open>
  The deduplication loop. Every entry appended before it carries a string as its \<open>url\<close>,
  and on strings Python's set membership is equality.
\<close>

fun dedup_formats :: "json set \<Rightarrow> format list \<Rightarrow> format list" where
  "dedup_formats seen_urls [] = []"
| "dedup_formats seen_urls (f # fs) =
     (if truthy (url f) \<and> url f \<notin> seen_urls
      then f # dedup_formats (insert (url f) seen_urls) fs
      else dedup_formats seen_urls fs)"

definition extract_duration :: "string \<Rightarrow> json \<Rightarrow> json result" where
  "extract_duration html_text cur =
     (case re_search match_duration html_text of
        None \<Rightarrow> Inr cur
      | Some (g1, g2) \<Rightarrow>
          and_then (group_int g1) (\<lambda>mins.
          and_then (group_int g2) (\<lambda>secs. Inr (JInt (mins * 60 + secs)))))"

definition title_from_path :: "string \<Rightarrow> string" where
  "title_from_path p =
     (let seg = last (py_split CHR ''/'' (py_strip_char CHR ''/'' p))
      in if seg \<noteq> [] then seg else ''Audiomack Track'')"

definition title_fallback :: "url_parser \<Rightarrow> string \<Rightarrow> info \<Rightarrow> info result" where
  "title_fallback urlparse u i =
     (if \<not> truthy (title i) then
        and_then (call_urlparse urlparse u) (\<lambda>parsed. Inr (i\<lparr>title := JStr (title_from_path (path parsed))\<rparr>))
      else Inr i)"

text \<open>Everything after the status checks, as a function of the page text.\<close>

definition extract_from_text ::
  "(string \<Rightarrow> json option) \<Rightarrow> url_parser \<Rightarrow> string \<Rightarrow> string \<Rightarrow> info result" where
  "extract_from_text json_loads urlparse u html_text =
     (let json_ld = find_json_ld json_loads html_text
      in and_then (if truthy json_ld then apply_json_ld json_ld empty_info else Inr empty_info)
           (\<lambda>i1.
              let i2 = i1\<lparr>title := meta_fallback og_title_lit html_text (title i1)\<rparr>;
                  i3 = i2\<lparr>thumbnail := meta_fallback og_image_lit html_text (thumbnail i2)\<rparr>;
                  i4 = i3\<lparr>uploader := meta_fallback author_lit html_text (uploader i3)\<rparr>;
                  i5 = i4\<lparr>formats := formats i4 @ map direct_format (find_direct_audio_urls html_text)\<rparr>;
                  i6 = i5\<lparr>formats := dedup_formats {} (formats i5)\<rparr>
              in and_then (extract_duration html_text (duration i6))
                   (\<lambda>d. title_fallback urlparse u (i6\<lparr>duration := d\<rparr>))))"

definition msg_403 :: string where
  "msg_403 =
     ''This track is not publicly accessible. It may be premium-only or region-restricted.''"

definition msg_404 :: string where
  "msg_404 = ''Track not found. It may have been deleted or made private.''"

definition msg_status :: "int \<Rightarrow> string" where
  "msg_status n = ''Failed to access Audiomack track (HTTP '' @ str_int n @ '')''"

definition audiomack_extract_info ::
  "(string \<Rightarrow> response result) \<Rightarrow> (string \<Rightarrow> json option) \<Rightarrow> url_parser \<Rightarrow> string
     \<Rightarrow> info result" where
  "audiomack_extract_info http_get json_loads urlparse u =
     (case http_get u of
        Inl e \<Rightarrow>
          if is_Timeout e then
            Inl (Exn Exception ''Request timed out while accessing Audiomack track.'')
          else if is_RequestException e then
            Inl (Exn Exception (''Failed to access Audiomack track: '' @ exn_str e))
          else Inl e
      | Inr resp \<Rightarrow>
          if status_code resp = 403 then Inl (Exn Exception msg_403)
          else if status_code resp = 404 then Inl (Exn Exception msg_404)
          else if status_code resp \<noteq> 200 then Inl (Exn Exception (msg_status (status_code resp)))
          else extract_from_text json_loads urlparse u (resp_text resp))"

section \<open>The streaming downloader\<close>

text \<open>
  The progress callback is a recorder: the model returns the events it was called with.
  The finished event has no \<open>speed\<close> key. The clock is a parameter: \<open>clock k\<close> is the
  elapsed time read before the \<open>k\<close>-th event is reported, counting from zero.
\<close>

record progress =
  status :: string
  downloaded_bytes :: int
  total_bytes :: int
  percentage :: int
  speed :: "int option"

text \<open>
  The file system is a parameter: what \<open>os.makedirs\<close>, \<open>open(path, 'wb')\<close> and
  \<open>fh.write(chunk)\<close> raise, if anything; the last one sees the bytes written so far.
\<close>

record filesystem =
  makedirs :: "string \<Rightarrow> py_exn option"
  open_wb :: "string \<Rightarrow> py_exn option"
  write_chunk :: "string \<Rightarrow> string \<Rightarrow> py_exn option"

record download_outcome =
  raised :: "py_exn option"
  dest_file :: "string option"
  events :: "progress list"

text \<open>\<open>os.path.dirname\<close> on POSIX paths.\<close>

definition dirname :: "string \<Rightarrow> string" where
  "dirname p =
     (let head = rev (dropWhile (\<lambda>c. c \<noteq> CHR ''/'') (rev p))
      in if head \<noteq> [] \<and> \<not> list_all (\<lambda>c. c = CHR ''/'') head
         then rev (dropWhile (\<lambda>c. c = CHR ''/'') (rev head)) else head)"

text \<open>\<open>int((downloaded / total) * 100) if total else 0\<close>\<close>

definition percentage_of :: "int \<Rightarrow> int \<Rightarrow> int result" where
  "percentage_of downloaded tot =
     (if tot \<noteq> 0 then
        (if fl_overflow (of_int downloaded / of_int tot) then
           Inl (Exn OverflowError ''integer division result too large for a float'')
         else
           (let p = fl_round (of_int downloaded / of_int tot) * 100
            in if fl_overflow p then Inl (Exn OverflowError msg_inf_to_int)
               else Inr (py_int_of_float (fl_round p))))
      else Inr 0)"

text \<open>\<open>int(downloaded / elapsed) if elapsed > 0 else 0\<close>, where \<open>elapsed\<close> is a float.\<close>

definition speed_of :: "int \<Rightarrow> rat \<Rightarrow> int result" where
  "speed_of downloaded elapsed =
     (if 0 < elapsed then
        (if fl_overflow (of_int downloaded) then
           Inl (Exn OverflowError ''int too large to convert to float'')
         else
           (let q = fl_round (of_int downloaded) / elapsed
            in if fl_overflow q then Inl (Exn OverflowError msg_inf_to_int)
               else Inr (py_int_of_float (fl_round q))))
      else Inr 0)"

text \<open>\<open>int(resp.headers.get('Content-Length') or 0)\<close>\<close>

definition total_of :: "string option \<Rightarrow> int result" where
  "total_of h =
     (case h of
        None \<Rightarrow> Inr 0
      | Some v \<Rightarrow>
          if v = [] then Inr 0
          else py_int_str v)"

text \<open>
  One progress report while downloading: the speed is computed first, then the percentage;
  either can raise.
\<close>

definition downloading_event :: "(nat \<Rightarrow> rat) \<Rightarrow> nat \<Rightarrow> int \<Rightarrow> int \<Rightarrow> progress result" where
  "downloading_event clock k d tot =
     and_then (speed_of d (clock k)) (\<lambda>sp.
     and_then (percentage_of d tot) (\<lambda>pc.
       Inr \<lparr>status = ''downloading'', downloaded_bytes = d, total_bytes = tot,
            percentage = pc, speed = Some sp\<rparr>))"

text \<open>
  The loop over the chunks. The state is the byte count, the bytes written to the file and
  the events reported so far.
\<close>

fun write_loop ::
  "filesystem \<Rightarrow> bool \<Rightarrow> (nat \<Rightarrow> rat) \<Rightarrow> int \<Rightarrow> stream_item list
     \<Rightarrow> int \<times> string \<times> progress list \<Rightarrow> py_exn option \<times> int \<times> string \<times> progress list" where
  "write_loop fs cb clock tot [] st = (None, st)"
| "write_loop fs cb clock tot (StreamError e # rest) st = (Some e, st)"
| "write_loop fs cb clock tot (Chunk c # rest) (downloaded, written, evs) =
     (if c = [] then write_loop fs cb clock tot rest (downloaded, written, evs)
      else
        (case write_chunk fs written c of
           Some e \<Rightarrow> (Some e, downloaded, written, evs)
         | None \<Rightarrow>
             (let d = downloaded + int (length c)
              in if cb then
                   (case downloading_event clock (length evs) d tot of
                      Inl e \<Rightarrow> (Some e, d, written @ c, evs)
                    | Inr ev \<Rightarrow> write_loop fs cb clock tot rest (d, written @ c, evs @ [ev]))
                 else write_loop fs cb clock tot rest (d, written @ c, evs))))"

definition wrap_io :: "py_exn \<Rightarrow> py_exn" where
  "wrap_io e =
     (if is_IOError e then
        Exn Exception (''Failed to write audio file: '' @ exn_str e
          @ ''. Check disk space and permissions.'')
      else e)"

definition failed :: "py_exn \<Rightarrow> download_outcome" where
  "failed e = \<lparr>raised = Some e, dest_file = None, events = []\<rparr>"

definition download_direct ::
  "(string \<Rightarrow> response result) \<Rightarrow> filesystem \<Rightarrow> (nat \<Rightarrow> rat) \<Rightarrow> string \<Rightarrow> string \<Rightarrow> bool
     \<Rightarrow> download_outcome" where
  "download_direct http_get fs clock u output_path progress_callback =
     (case http_get u of
        Inl e \<Rightarrow>
          if is_Timeout e then failed (Exn Exception ''Download timed out. Please try again.'')
          else if is_ConnectionError e then
            failed (Exn Exception ''Connection error. Please check your internet connection.'')
          else if is_RequestException e then
            failed (Exn Exception (''Failed to download audio: '' @ exn_str e))
          else failed e
      | Inr resp \<Rightarrow>
          if status_code resp = 403 then
            failed (Exn Exception
              ''Access denied. The track may be premium-only or not available in your region.'')
          else if status_code resp = 404 then
            failed (Exn Exception
              ''The audio file was not found. The track may have been removed.'')
          else if status_code resp \<noteq> 200 then
            failed (Exn Exception
              (''Failed to download audio (HTTP '' @ str_int (status_code resp) @ '')''))
          else
            (case total_of (content_length resp) of
               Inl e \<Rightarrow> failed e
             | Inr tot \<Rightarrow>
                 (case makedirs fs (if dirname output_path \<noteq> [] then dirname output_path else ''.'') of
                    Some e \<Rightarrow> failed e
                  | None \<Rightarrow>
                      (case open_wb fs output_path of
                         Some e \<Rightarrow> failed (wrap_io e)
                       | None \<Rightarrow>
                           (case write_loop fs progress_callback clock tot (iter_content resp)
                                   (0, [], []) of
                              (Some e, downloaded, written, evs) \<Rightarrow>
                                \<lparr>raised = Some (wrap_io e), dest_file = Some written, events = evs\<rparr>
                            | (None, downloaded, written, evs) \<Rightarrow>
                                \<lparr>raised = None, dest_file = Some written,
                                 events =
                                   (if progress_callback then
                                      evs @ [\<lparr>status = ''finished'', downloaded_bytes = downloaded,
                                              total_bytes = tot, percentage = 100, speed = None\<rparr>]
                                    else evs)\<rparr>)))))"

section \<open>The vendor API client\<close>

text \<open>
  The three environment variables, as \<open>os.environ.get\<close> returns them, and the network:
  a function from the request made to what the HTTP library returns or raises. The
  \<open>Authorization\<close> header \<open>f'Bearer {token}'\<close> is kept as the token it was formatted from.
  Every function returns, next to its result, the requests it made, in order.
\<close>

record environ =
  bearer_token :: "string option"
  client_id :: "string option"
  client_secret :: "string option"

datatype request =
    TokenPost string string
  | OEmbedGet string
  | ApiGet string json

type_synonym network = "request \<Rightarrow> response result"

definition env_truthy :: "string option \<Rightarrow> bool" where
  "env_truthy v = (case v of None \<Rightarrow> False | Some x \<Rightarrow> x \<noteq> [])"

definition msg_not_configured :: string where
  "msg_not_configured = ''SPOTIFY client credentials not configured''"

definition get_access_token :: "environ \<Rightarrow> network \<Rightarrow> json result \<times> request list" where
  "get_access_token env net =
     (if \<not> env_truthy (client_id env) \<or> \<not> env_truthy (client_secret env) then
        (Inl (Exn Exception msg_not_configured), [])
      else
        (let rq = TokenPost (the (client_id env)) (the (client_secret env))
         in (case net rq of
               Inl e \<Rightarrow> (Inl e, [rq])
             | Inr resp \<Rightarrow>
                 if status_code resp \<noteq> 200 then
                   (Inl (Exn Exception (''Failed to obtain Spotify token: ''
                      @ str_int (status_code resp) @ '' '' @ resp_text resp)), [rq])
                 else
                   (and_then (resp_json resp) (\<lambda>j. py_get j ''access_token'' JNull), [rq]))))"

definition parse_spotify_url :: "url_parser \<Rightarrow> string \<Rightarrow> (string \<times> string) option" where
  "parse_spotify_url urlparse u =
     (case call_urlparse urlparse u of
        Inl e \<Rightarrow> None
      | Inr parsed \<Rightarrow>
          (let host = py_lower (netloc parsed)
           in if \<not> py_contains ''open.spotify.com'' host \<and> \<not> py_contains ''spotify'' host
              then None
              else (case py_split CHR ''/'' (py_strip_char CHR ''/'' (path parsed)) of
                      a # b # _ \<Rightarrow> Some (a, b)
                    | _ \<Rightarrow> None)))"

definition get_auth_headers :: "environ \<Rightarrow> network \<Rightarrow> json result \<times> request list" where
  "get_auth_headers env net =
     (if env_truthy (bearer_token env) then (Inr (JStr (the (bearer_token env))), [])
      else get_access_token env net)"

subsection \<open>The embed fallback\<close>

definition msg_credentials :: string where
  "msg_credentials =
     ''Spotify credentials or bearer token are required for full metadata (preview URLs). ''
     @ ''Fallback oEmbed failed: ''"

definition oembed_record :: "response \<Rightarrow> info result" where
  "oembed_record oresp =
     (if status_code oresp = 200 then
        and_then (resp_json oresp) (\<lambda>od.
        and_then (py_get od ''title'' JNull) (\<lambda>t.
        and_then (py_get od ''author_name'' JNull) (\<lambda>a.
        and_then (py_get od ''thumbnail_url'' JNull) (\<lambda>th.
          Inr (empty_info\<lparr>title := t, uploader := a, thumbnail := th, duration := JNull,
                 formats := []\<rparr>)))))
      else
        Inl (Exn Exception (''oEmbed failed: '' @ str_int (status_code oresp) @ '' ''
               @ resp_text oresp)))"

definition oembed_fallback :: "network \<Rightarrow> string \<Rightarrow> info result" where
  "oembed_fallback net u =
     (case and_then (net (OEmbedGet u)) oembed_record of
        Inl oe \<Rightarrow> Inl (Exn Exception (msg_credentials @ exn_str oe))
      | Inr i \<Rightarrow> Inr i)"

subsection \<open>The resource mappings\<close>

text \<open>The comprehension \<open>[a.get('name') for a in \<dots> if a.get('name')]\<close>.\<close>

fun artist_names :: "json list \<Rightarrow> json list result" where
  "artist_names [] = Inr []"
| "artist_names (a # as) =
     and_then (py_get a ''name'' JNull) (\<lambda>n.
     and_then (artist_names as) (\<lambda>ns. Inr (if truthy n then n # ns else ns)))"

text \<open>\<open>sep.join(xs)\<close>: every item has to be a string.\<close>

fun join_items :: "nat \<Rightarrow> json list \<Rightarrow> string list result" where
  "join_items k [] = Inr []"
| "join_items k (x # xs) =
     (case x of
        JStr t \<Rightarrow> and_then (join_items (Suc k) xs) (\<lambda>ts. Inr (t # ts))
      | _ \<Rightarrow> Inl (Exn TypeError (''sequence item '' @ str_int (int k) @ '': expected str instance, ''
                 @ type_name x @ '' found'')))"

fun intercalate :: "string \<Rightarrow> string list \<Rightarrow> string" where
  "intercalate sep [] = []"
| "intercalate sep [t] = t"
| "intercalate sep (t # u # ts) = t @ sep @ intercalate sep (u # ts)"

definition py_join :: "string \<Rightarrow> json list \<Rightarrow> string result" where
  "py_join sep xs = and_then (join_items 0 xs) (\<lambda>ts. Inr (intercalate sep ts))"

text \<open>\<open>if images: info['thumbnail'] = images[0].get('url')\<close>\<close>

definition first_image :: "json \<Rightarrow> json \<Rightarrow> json result" where
  "first_image images old =
     (if truthy images then and_then (py_first images) (\<lambda>im. py_get im ''url'' JNull)
      else Inr old)"

text \<open>
  \<open>int(v / 1000)\<close>. A \<open>bool\<close> is an \<open>int\<close>; an integer too large for a float makes the
  division raise; a float divided by 1000 stays in range, an infinity and a not-a-number
  stay what they are and make \<open>int\<close> raise.
\<close>

definition ms_to_seconds :: "json \<Rightarrow> int result" where
  "ms_to_seconds v =
     (case v of
        JInt n \<Rightarrow>
          if fl_overflow (of_int n / 1000) then
            Inl (Exn OverflowError ''integer division result too large for a float'')
          else Inr (py_int_of_float (fl_round (of_int n / 1000)))
      | JBool b \<Rightarrow> Inr (py_int_of_float (fl_round ((if b then 1 else 0) / 1000)))
      | JFloat x \<Rightarrow> Inr (py_int_of_float (fl_round (x / 1000)))
      | JInf p \<Rightarrow> Inl (Exn OverflowError msg_inf_to_int)
      | JNaN \<Rightarrow> Inl (Exn ValueError ''cannot convert float NaN to integer'')
      | _ \<Rightarrow> Inl (Exn TypeError (''unsupported operand type(s) for /: ''
                 @ quoted (type_name v) @ '' and '' @ quoted ''int'')))"

text \<open>The artists of a track, joined.\<close>

definition track_uploader :: "json \<Rightarrow> json result" where
  "track_uploader data =
     and_then (py_get data ''artists'' (JArr [])) (\<lambda>av.
     and_then (py_iter av) (\<lambda>as.
     and_then (artist_names as) (\<lambda>artists.
       if artists \<noteq> [] then and_then (py_join '', '' artists) (\<lambda>j. Inr (JStr j))
       else Inr JNull)))"

text \<open>The first image of a track's album.\<close>

definition track_thumbnail :: "json \<Rightarrow> json \<Rightarrow> json result" where
  "track_thumbnail data old =
     and_then (py_get data ''album'' (JObj [])) (\<lambda>album.
     and_then (py_get album ''images'' (JArr [])) (\<lambda>images.
       first_image images old))"

definition track_record :: "json \<Rightarrow> info \<Rightarrow> info result" where
  "track_record data i =
     and_then (py_get data ''name'' JNull) (\<lambda>name.
     and_then (track_uploader data) (\<lambda>upl.
     and_then (track_thumbnail data (thumbnail i)) (\<lambda>thumb.
     and_then (py_get data ''duration_ms'' (JInt 0)) (\<lambda>ms.
     and_then (ms_to_seconds ms) (\<lambda>secs.
     and_then (py_get data ''preview_url'' JNull) (\<lambda>preview.
       Inr (i\<lparr>title := name, uploader := upl, thumbnail := thumb, duration := JInt secs,
              formats := formats i @
                (if truthy preview
                 then [\<lparr>format_id = JStr ''preview'', ext = ''mp3'', url = preview\<rparr>]
                 else [])\<rparr>)))))))"

text \<open>One entry of the album and playlist loops.\<close>

definition track_format :: "json \<Rightarrow> format result" where
  "track_format t =
     and_then (py_get t ''id'' JNull) (\<lambda>tid.
     and_then (py_get t ''preview_url'' JNull) (\<lambda>pv.
       Inr \<lparr>format_id = tid, ext = (if truthy pv then ''preview'' else ''none''), url = pv\<rparr>))"

fun album_formats :: "json list \<Rightarrow> format list result" where
  "album_formats [] = Inr []"
| "album_formats (t # ts) =
     and_then (track_format t) (\<lambda>f.
     and_then (album_formats ts) (\<lambda>fs. Inr (f # fs)))"

definition album_record :: "json \<Rightarrow> info \<Rightarrow> info result" where
  "album_record data i =
     and_then (py_get data ''name'' JNull) (\<lambda>name.
     and_then (py_get data ''artists'' (JArr [JObj []])) (\<lambda>av.
     and_then (py_first av) (\<lambda>a0.
     and_then (py_get a0 ''name'' JNull) (\<lambda>upl.
     and_then (py_get data ''images'' (JArr [])) (\<lambda>images.
     and_then (first_image images (thumbnail i)) (\<lambda>thumb.
     and_then (py_get data ''tracks'' (JObj [])) (\<lambda>tv.
     and_then (py_get tv ''items'' (JArr [])) (\<lambda>iv.
     and_then (py_iter iv) (\<lambda>tracks.
     and_then (album_formats tracks) (\<lambda>fs.
       Inr (i\<lparr>title := name, uploader := upl, thumbnail := thumb, formats := fs\<rparr>)))))))))))"

fun playlist_formats :: "json list \<Rightarrow> format list result" where
  "playlist_formats [] = Inr []"
| "playlist_formats (item # items) =
     and_then (py_get item ''track'' JNull) (\<lambda>tr.
     and_then (track_format (py_or tr (JObj []))) (\<lambda>f.
     and_then (playlist_formats items) (\<lambda>fs. Inr (f # fs))))"

definition playlist_record :: "json \<Rightarrow> info \<Rightarrow> info result" where
  "playlist_record data i =
     and_then (py_get data ''name'' JNull) (\<lambda>name.
     and_then (py_get data ''owner'' (JObj [])) (\<lambda>owner.
     and_then (py_get owner ''display_name'' JNull) (\<lambda>upl.
     and_then (py_get data ''images'' (JArr [])) (\<lambda>images.
     and_then (first_image images (thumbnail i)) (\<lambda>thumb.
     and_then (py_get data ''tracks'' (JObj [])) (\<lambda>tv.
     and_then (py_get tv ''items'' (JArr [])) (\<lambda>iv.
     and_then (py_iter iv) (\<lambda>items.
     and_then (playlist_formats items) (\<lambda>fs.
       Inr (i\<lparr>title := name, uploader := upl, thumbnail := thumb, formats := fs\<rparr>))))))))))"

definition msg_api_error :: "response \<Rightarrow> string" where
  "msg_api_error resp =
     ''Spotify API error: '' @ str_int (status_code resp) @ '' '' @ resp_text resp"

text \<open>A resource request and the mapping of its answer.\<close>

definition api_call ::
  "network \<Rightarrow> json \<Rightarrow> string \<Rightarrow> (json \<Rightarrow> info \<Rightarrow> info result) \<Rightarrow> info result \<times> request list" where
  "api_call net headers resource mapping =
     (let rq = ApiGet resource headers
      in (case net rq of
            Inl e \<Rightarrow> (Inl e, [rq])
          | Inr resp \<Rightarrow>
              if status_code resp \<noteq> 200 then (Inl (Exn Exception (msg_api_error resp)), [rq])
              else (and_then (resp_json resp) (\<lambda>data. mapping data empty_info), [rq])))"

definition spotify_extract_info ::
  "environ \<Rightarrow> network \<Rightarrow> url_parser \<Rightarrow> string \<Rightarrow> info result \<times> request list" where
  "spotify_extract_info env net urlparse u =
     (case parse_spotify_url urlparse u of
        None \<Rightarrow> (Inl (Exn Exception ''Invalid Spotify URL''), [])
      | Some (typ, obj_id) \<Rightarrow>
          if typ = [] \<or> obj_id = [] then (Inl (Exn Exception ''Invalid Spotify URL''), [])
          else
            (case get_auth_headers env net of
               (Inl e, made) \<Rightarrow> (oembed_fallback net u, made @ [OEmbedGet u])
             | (Inr headers, made) \<Rightarrow>
                 (let (r, more) =
                    (if typ = ''track'' then
                       api_call net headers (''/tracks/'' @ obj_id) track_record
                     else if typ = ''album'' then
                       api_call net headers (''/albums/'' @ obj_id) album_record
                     else if typ = ''playlist'' then
                       api_call net headers (''/playlists/'' @ obj_id) playlist_record
                     else (Inl (Exn Exception ''Unsupported Spotify resource type''), []))
                  in (r, made @ more))))"

section \<open>Notions of the specification\<close>

text \<open>No two entries of a format list carry the same non-null \<open>url\<close>.\<close>

definition no_duplicate_urls :: "format list \<Rightarrow> bool" where
  "no_duplicate_urls fs = distinct (filter (\<lambda>v. v \<noteq> JNull) (map url fs))"

text \<open>
  The final non-empty segment of a path, in the words of the specification: the last of
  the non-empty pieces between slashes, if there is one.
\<close>

definition final_segment :: "string \<Rightarrow> string option" where
  "final_segment p =
     (let segs = filter (\<lambda>seg. seg \<noteq> []) (py_split CHR ''/'' p)
      in if segs = [] then None else Some (last segs))"

text \<open>
  The title that the extraction stages of the HTML extractor set, before the fallback to
  the URL: the \<open>name\<close> or \<open>headline\<close> of the structured-data block, else the \<open>og:title\<close>
  tag; \<open>JNull\<close> when no stage sets it.
\<close>

definition staged_title :: "(string \<Rightarrow> json option) \<Rightarrow> string \<Rightarrow> json" where
  "staged_title json_loads html_text =
     meta_fallback og_title_lit html_text
       (case find_json_ld json_loads html_text of
          JObj kvs \<Rightarrow>
            py_or (case map_of kvs ''name'' of None \<Rightarrow> JNull | Some x \<Rightarrow> x)
              (py_or (case map_of kvs ''headline'' of None \<Rightarrow> JNull | Some x \<Rightarrow> x) JNull)
        | _ \<Rightarrow> JNull)"

text \<open>The bytes of a body, chunk after chunk.\<close>

fun stream_bytes :: "stream_item list \<Rightarrow> string" where
  "stream_bytes [] = []"
| "stream_bytes (Chunk c # rest) = c @ stream_bytes rest"
| "stream_bytes (StreamError e # rest) = stream_bytes rest"

definition duration_fragment :: string where
  \<open>duration_fragment = ''"duration":"PT3M27S"''\<close>

text \<open>A file system on which nothing fails, and responses, for the examples.\<close>

definition fs_ok :: filesystem where
  "fs_ok = \<lparr>makedirs = (\<lambda>d. None), open_wb = (\<lambda>p. None), write_chunk = (\<lambda>w c. None)\<rparr>"

definition page_response :: "int \<Rightarrow> string \<Rightarrow> response" where
  "page_response code body =
     \<lparr>status_code = code, resp_text = body,
      resp_json = Inl (Exn JSONDecodeError ''Expecting value''),
      content_length = None, iter_content = []\<rparr>"

definition json_response :: "int \<Rightarrow> json \<Rightarrow> response" where
  "json_response code j =
     \<lparr>status_code = code, resp_text = [], resp_json = Inr j,
      content_length = None, iter_content = []\<rparr>"

definition stream_response :: "string option \<Rightarrow> stream_item list \<Rightarrow> response" where
  "stream_response len items =
     \<lparr>status_code = 200, resp_text = [],
      resp_json = Inl (Exn JSONDecodeError ''Expecting value''),
      content_length = len, iter_content = items\<rparr>"


section \<open>Basic facts\<close>

lemma and_then_Inr [simp]: "and_then (Inr v) f = f v"
  by (simp add: and_then_def)

lemma and_then_Inl [simp]: "and_then (Inl e) f = Inl e"
  by (simp add: and_then_def)

lemma and_then_InlE:
  assumes "and_then r f = Inl e"
  obtains "r = Inl e" | v where "r = Inr v" "f v = Inl e"
  using assms by (cases r) simp_all

lemma and_then_InrE:
  assumes "and_then r f = Inr w"
  obtains v where "r = Inr v" "f v = Inr w"
  using assms by (cases r) simp_all

lemma py_get_JObj [simp]:
  "py_get (JObj kvs) k d = Inr (case map_of kvs k of None \<Rightarrow> d | Some x \<Rightarrow> x)"
  by (simp add: py_get_def)

text \<open>Rules that evaluate the pattern searches on a given text, one character at a time.\<close>

lemma ci_prefix_eval:
  "ci_prefix [] s = True"
  "ci_prefix (p # ps) [] = False"
  "ci_prefix (p # ps) (c # cs) = (if lower_char c = lower_char p then ci_prefix ps cs else False)"
  by (simp_all add: ci_prefix_def py_lower_def)

lemma py_startswith_eval:
  "py_startswith [] s = True"
  "py_startswith (p # ps) [] = False"
  "py_startswith (p # ps) (c # cs) = (if c = p then py_startswith ps cs else False)"
  by (simp_all add: py_startswith_def)

lemmas char_eval = lower_char_def py_isupper_def py_isspace_def py_isdigit_def py_isword_def
  py_isalnum_def url_char_def query_char_def is_quote_def

lemmas match_eval = match_json_ld_def type_attr_at_def match_meta_def og_title_lit_def
  og_image_lit_def author_lit_def match_audio_url_def after_scheme_def ext_at_def
  match_duration_def duration_lit_def digits_then_def find_direct_audio_urls_def
  ci_prefix_eval py_startswith_eval char_eval

lemmas int_eval = py_int_str_def int_isspace_def py_isdigit_def digits_val_def digit_val_def

lemmas stage_eval = find_json_ld_def meta_fallback_def extract_duration_def group_int_def
  int_eval truthy_def py_strip_def Let_def match_eval

lemmas fallback_eval = title_fallback_def call_urlparse_def title_from_path_def
  py_strip_char_def truthy_def Let_def

lemma str_int_404: "str_int 404 = ''404''"
  by code_simp

lemma str_int_401: "str_int 401 = ''401''"
  by code_simp

lemma ms_to_seconds_0: "ms_to_seconds (JInt 0) = Inr 0"
  by (simp add: ms_to_seconds_def fl_overflow_def fl_round_def py_int_of_float_def)

lemma ms_to_seconds_210000: "ms_to_seconds (JInt 210000) = Inr 210"
  by code_simp

section \<open>The HTML metadata extractor: claims\<close>

lemma py_get_cls: "py_get v k d = Inl e \<Longrightarrow> exn_cls e = AttributeError"
  by (auto simp: py_get_def no_attribute_def split: json.splits)

lemma py_first_cls: "py_first v = Inl e \<Longrightarrow> exn_cls e \<noteq> Exception"
  by (auto simp: py_first_def split: json.splits list.splits)

lemma json_ld_thumbnail_cls: "json_ld_thumbnail v = Inl e \<Longrightarrow> exn_cls e \<noteq> Exception"
  by (auto simp: json_ld_thumbnail_def dest: py_first_cls split: json.splits)

lemma json_ld_uploader_cls: "json_ld_uploader v old = Inl e \<Longrightarrow> exn_cls e \<noteq> Exception"
  by (auto simp: json_ld_uploader_def split: json.splits)

lemma json_ld_formats_cls: "json_ld_formats v = Inl e \<Longrightarrow> exn_cls e \<noteq> Exception"
  by (auto simp: json_ld_formats_def no_attribute_def Let_def split: json.splits if_splits)

lemma apply_json_ld_cls:
  assumes "apply_json_ld j i = Inl e"
  shows "exn_cls e \<noteq> Exception"
  using assms unfolding apply_json_ld_def
  by (elim and_then_InlE)
     (auto dest: py_get_cls json_ld_thumbnail_cls json_ld_uploader_cls json_ld_formats_cls)

lemma title_fallback_cls: "title_fallback urlparse u i = Inl e \<Longrightarrow> exn_cls e \<noteq> Exception"
  by (auto simp: title_fallback_def call_urlparse_def split: if_splits sum.splits)

lemma py_int_str_cls: "py_int_str s = Inl e \<Longrightarrow> exn_cls e = ValueError"
  by (auto simp: py_int_str_def invalid_literal_def exceeds_limit_def Let_def
      split: if_splits prod.splits)

lemma extract_duration_cls: "extract_duration t cur = Inl e \<Longrightarrow> exn_cls e = ValueError"
  by (auto simp: extract_duration_def group_int_def dest: py_int_str_cls
      split: option.splits prod.splits elim!: and_then_InlE)

lemma extract_from_text_cls:
  assumes "extract_from_text json_loads urlparse u t = Inl e"
  shows "exn_cls e \<noteq> Exception"
  using assms unfolding extract_from_text_def Let_def
  by (elim and_then_InlE)
     (auto dest: apply_json_ld_cls title_fallback_cls extract_duration_cls split: if_splits)

lemma msg_distinct:
  "msg_403 \<noteq> msg_404" "msg_status n \<noteq> msg_403" "msg_status n \<noteq> msg_404"
  by (simp_all add: msg_403_def msg_404_def msg_status_def)

text \<open>
  Claim C6. Given a response to the page request, the extractor fails with the not-found
  error exactly when the status is 404, with the access error exactly when it is 403, and
  with the unexpected-status error, which carries the status, exactly when the status is
  any other than 200, 403 and 404. The errors are \<open>Exception\<close> objects told apart by their
  messages: the three messages are pairwise different, so that a 404 or a 403 is reported
  by its own message and not by the message for unexpected statuses.
\<close>

theorem status_errors:
  assumes "http_get u = Inr resp"
  shows "(audiomack_extract_info http_get json_loads urlparse u = Inl (Exn Exception msg_404))
           = (status_code resp = 404) \<and>
         (audiomack_extract_info http_get json_loads urlparse u = Inl (Exn Exception msg_403))
           = (status_code resp = 403) \<and>
         (audiomack_extract_info http_get json_loads urlparse u
            = Inl (Exn Exception (msg_status (status_code resp))))
           = (status_code resp \<noteq> 200 \<and> status_code resp \<noteq> 403 \<and> status_code resp \<noteq> 404) \<and>
         msg_403 \<noteq> msg_404 \<and>
         msg_status (status_code resp) \<noteq> msg_403 \<and>
         msg_status (status_code resp) \<noteq> msg_404"
proof -
  have ok: "extract_from_text json_loads urlparse u (resp_text resp) \<noteq> Inl (Exn Exception m)" for m
    using extract_from_text_cls by fastforce
  show ?thesis
    using assms ok msg_distinct msg_distinct [symmetric]
    by (auto simp: audiomack_extract_info_def)
qed


theorem status_errors_witness:
  "audiomack_extract_info (\<lambda>v. Inr (page_response 404 [])) (\<lambda>t. None) (\<lambda>v. Inl [])
      ''https://audiomack.com/a/song/b'' = Inl (Exn Exception msg_404) \<and>
   audiomack_extract_info (\<lambda>v. Inr (page_response 403 [])) (\<lambda>t. None) (\<lambda>v. Inl [])
      ''https://audiomack.com/a/song/b'' = Inl (Exn Exception msg_403) \<and>
   audiomack_extract_info (\<lambda>v. Inr (page_response 500 [])) (\<lambda>t. None) (\<lambda>v. Inl [])
      ''https://audiomack.com/a/song/b'' = Inl (Exn Exception (msg_status 500)) \<and>
   msg_status 500 = ''Failed to access Audiomack track (HTTP 500)'' \<and>
   audiomack_extract_info (\<lambda>v. Inr (page_response 200 [])) (\<lambda>t. None) (\<lambda>v. Inl [])
      ''https://audiomack.com/a/song/b'' \<noteq> Inl (Exn Exception (msg_status 200))"
proof -
  let ?u = "''https://audiomack.com/a/song/b''"
  let ?jl = "\<lambda>t :: string. (None :: json option)"
  let ?up = "\<lambda>v :: string. (Inl [] :: string + url_parts)"
  have s: "status_code (page_response c b) = c" for c b
    by (simp add: page_response_def)
  have "audiomack_extract_info (\<lambda>v. Inr (page_response 404 [])) ?jl ?up ?u
          = Inl (Exn Exception msg_404)"
    using status_errors [of "\<lambda>v. Inr (page_response 404 [])" ?u "page_response 404 []" ?jl ?up]
    by (simp add: s)
  moreover have "audiomack_extract_info (\<lambda>v. Inr (page_response 403 [])) ?jl ?up ?u
          = Inl (Exn Exception msg_403)"
    using status_errors [of "\<lambda>v. Inr (page_response 403 [])" ?u "page_response 403 []" ?jl ?up]
    by (simp add: s)
  moreover have "audiomack_extract_info (\<lambda>v. Inr (page_response 500 [])) ?jl ?up ?u
          = Inl (Exn Exception (msg_status 500))"
    using status_errors [of "\<lambda>v. Inr (page_response 500 [])" ?u "page_response 500 []" ?jl ?up]
    by (simp add: s)
  moreover have "msg_status 500 = ''Failed to access Audiomack track (HTTP 500)''"
    by code_simp
  moreover have "audiomack_extract_info (\<lambda>v. Inr (page_response 200 [])) ?jl ?up ?u
          \<noteq> Inl (Exn Exception (msg_status 200))"
    using status_errors [of "\<lambda>v. Inr (page_response 200 [])" ?u "page_response 200 []" ?jl ?up]
    by (simp add: s)
  ultimately show ?thesis
    by simp
qed

subsection \<open>The parts of a successful extraction\<close>

lemma extract_from_text_InrE:
  assumes "extract_from_text json_loads urlparse u t = Inr i"
  obtains i1 d where
    "(if truthy (find_json_ld json_loads t)
      then apply_json_ld (find_json_ld json_loads t) empty_info else Inr empty_info) = Inr i1"
    "extract_duration t (duration i1) = Inr d"
    "title_fallback urlparse u
       \<lparr>title = meta_fallback og_title_lit t (title i1),
        thumbnail = meta_fallback og_image_lit t (thumbnail i1),
        uploader = meta_fallback author_lit t (uploader i1),
        duration = d,
        formats = dedup_formats {} (formats i1 @ map direct_format (find_direct_audio_urls t))\<rparr>
       = Inr i"
proof -
  from assms obtain i1 d where
    1: "(if truthy (find_json_ld json_loads t)
      then apply_json_ld (find_json_ld json_loads t) empty_info else Inr empty_info) = Inr i1"
    and 2: "extract_duration t (duration i1) = Inr d"
    and 3: "title_fallback urlparse u
       (i1\<lparr>title := meta_fallback og_title_lit t (title i1),
           thumbnail := meta_fallback og_image_lit t (thumbnail i1),
           uploader := meta_fallback author_lit t (uploader i1),
           formats := dedup_formats {} (formats i1 @ map direct_format (find_direct_audio_urls t)),
           duration := d\<rparr>) = Inr i"
    unfolding extract_from_text_def Let_def
    by (elim and_then_InrE) auto
  have "i1\<lparr>title := meta_fallback og_title_lit t (title i1),
           thumbnail := meta_fallback og_image_lit t (thumbnail i1),
           uploader := meta_fallback author_lit t (uploader i1),
           formats := dedup_formats {} (formats i1 @ map direct_format (find_direct_audio_urls t)),
           duration := d\<rparr>
        = \<lparr>title = meta_fallback og_title_lit t (title i1),
        thumbnail = meta_fallback og_image_lit t (thumbnail i1),
        uploader = meta_fallback author_lit t (uploader i1),
        duration = d,
        formats = dedup_formats {} (formats i1 @ map direct_format (find_direct_audio_urls t))\<rparr>"
    by (cases i1) simp
  with 1 2 3 that show thesis
    by simp
qed

lemma extract_plain_page:
  assumes "\<not> truthy (find_json_ld json_loads t)"
  shows "extract_from_text json_loads urlparse u t =
           and_then (extract_duration t JNull) (\<lambda>d.
             title_fallback urlparse u
               \<lparr>title = meta_fallback og_title_lit t JNull,
                thumbnail = meta_fallback og_image_lit t JNull,
                uploader = meta_fallback author_lit t JNull,
                duration = d,
                formats = dedup_formats {} (map direct_format (find_direct_audio_urls t))\<rparr>)"
  using assms by (simp add: extract_from_text_def Let_def empty_info_def)

lemma page_200:
  "audiomack_extract_info (\<lambda>v. Inr (page_response 200 t)) json_loads urlparse u
     = extract_from_text json_loads urlparse u t"
  by (simp add: audiomack_extract_info_def page_response_def)

lemma audiomack_Inr:
  assumes "audiomack_extract_info http_get json_loads urlparse u = Inr i"
  obtains resp where "http_get u = Inr resp" "status_code resp = 200"
    "extract_from_text json_loads urlparse u (resp_text resp) = Inr i"
  using assms
  by (auto simp: audiomack_extract_info_def split: sum.splits if_splits)

subsection \<open>Formats\<close>

lemma dedup_formats_urls:
  "distinct (map url (dedup_formats seen fs)) \<and> set (map url (dedup_formats seen fs)) \<inter> seen = {}"
  by (induction fs arbitrary: seen) auto

lemma dedup_formats_truthy: "f \<in> set (dedup_formats seen fs) \<Longrightarrow> truthy (url f)"
  by (induction fs arbitrary: seen) (auto split: if_splits)

lemma title_fallback_formats: "title_fallback urlparse u i = Inr i' \<Longrightarrow> formats i' = formats i"
  by (auto simp: title_fallback_def call_urlparse_def split: if_splits sum.splits)

lemma extract_from_text_formats:
  assumes "extract_from_text json_loads urlparse u t = Inr i"
  shows "\<exists>fs. formats i = dedup_formats {} fs"
  using assms by (elim extract_from_text_InrE) (auto dest!: title_fallback_formats)

subsection \<open>The title\<close>

lemma py_split_nonempty [simp]: "py_split c s \<noteq> []"
  by (induction s) (auto split: list.splits)

lemma py_split_append_sep: "py_split c (s @ c # t) = py_split c s @ py_split c t"
proof (induction s)
  case Nil
  then show ?case by simp
next
  case (Cons x xs)
  obtain w ws where w: "py_split c xs = w # ws"
    by (cases "py_split c xs") simp_all
  with Cons show ?case
    by simp
qed

lemma py_split_snoc_other:
  "x \<noteq> c \<Longrightarrow> py_split c (s @ [x]) = butlast (py_split c s) @ [last (py_split c s) @ [x]]"
proof (induction s)
  case Nil
  then show ?case by simp
next
  case (Cons y ys)
  obtain w ws where w: "py_split c ys = w # ws"
    by (cases "py_split c ys") simp_all
  obtain v vs where v: "py_split c (ys @ [x]) = v # vs"
    by (cases "py_split c (ys @ [x])") simp_all
  from Cons w v show ?case
    by (cases ws) (auto split: if_splits)
qed

lemma last_py_split: "(last (py_split c s) = []) = (s = [] \<or> last s = c)"
proof (induction s rule: rev_induct)
  case Nil
  then show ?case by simp
next
  case (snoc x xs)
  show ?case
  proof (cases "x = c")
    case True
    then show ?thesis
      using py_split_append_sep [of c xs "[]"] by simp
  next
    case False
    then show ?thesis
      by (simp add: py_split_snoc_other)
  qed
qed

lemma py_split_replicate_prefix: "py_split c (replicate a c @ s) = replicate a [] @ py_split c s"
  by (induction a) simp_all

lemma py_split_replicate_suffix: "py_split c (s @ replicate b c) = py_split c s @ replicate b []"
proof (induction b arbitrary: s)
  case 0
  then show ?case by simp
next
  case (Suc b)
  have "py_split c (s @ replicate (Suc b) c) = py_split c ((s @ [c]) @ replicate b c)"
    by simp
  also have "\<dots> = py_split c (s @ [c]) @ replicate b []"
    by (rule Suc.IH)
  also have "py_split c (s @ [c]) = py_split c s @ [[]]"
    using py_split_append_sep [of c s "[]"] by simp
  finally show ?case
    by (simp add: replicate_append_same)
qed

lemma strip_char_decomp:
  "\<exists>a b. p = replicate a c @ py_strip_char c p @ replicate b c"
proof -
  let ?P = "\<lambda>x. x = c"
  let ?d = "dropWhile ?P p"
  have 1: "p = takeWhile ?P p @ ?d"
    by simp
  have 2: "takeWhile ?P p = replicate (length (takeWhile ?P p)) c"
    by (rule replicate_length_same [symmetric]) (auto dest: set_takeWhileD)
  have "rev ?d = takeWhile ?P (rev ?d) @ dropWhile ?P (rev ?d)"
    by simp
  then have "?d = rev (dropWhile ?P (rev ?d)) @ rev (takeWhile ?P (rev ?d))"
    by (metis rev_append rev_rev_ident)
  moreover have "rev (takeWhile ?P (rev ?d)) = replicate (length (takeWhile ?P (rev ?d))) c"
    by (metis (mono_tags, lifting) length_rev replicate_length_same set_rev set_takeWhileD)
  ultimately have 3: "?d = py_strip_char c p @ replicate (length (takeWhile ?P (rev ?d))) c"
    by (simp add: py_strip_char_def)
  from 1 2 3 show ?thesis
    by metis
qed

lemma strip_char_last: "py_strip_char c p = [] \<or> last (py_strip_char c p) \<noteq> c"
proof (cases "py_strip_char c p = []")
  case True
  then show ?thesis by simp
next
  case False
  let ?r = "dropWhile (\<lambda>x. x = c) (rev (dropWhile (\<lambda>x. x = c) p))"
  from False have ne: "?r \<noteq> []"
    by (simp add: py_strip_char_def)
  then have "hd ?r \<noteq> c"
    using hd_dropWhile [of "\<lambda>x. x = c"] by blast
  moreover have "last (py_strip_char c p) = hd ?r"
    using ne by (simp add: py_strip_char_def last_rev)
  ultimately show ?thesis
    by simp
qed

lemma last_filter_last: "xs \<noteq> [] \<Longrightarrow> P (last xs) \<Longrightarrow> last (filter P xs) = last xs \<and> filter P xs \<noteq> []"
  by (induction xs) (auto split: if_splits)

lemma title_from_path_final_segment:
  "title_from_path p = (case final_segment p of None \<Rightarrow> ''Audiomack Track'' | Some seg \<Rightarrow> seg)"
proof -
  let ?c = "CHR ''/''"
  let ?m = "py_strip_char ?c p"
  let ?ne = "\<lambda>seg :: string. seg \<noteq> []"
  obtain a b where p: "p = replicate a ?c @ ?m @ replicate b ?c"
    using strip_char_decomp by blast
  have "py_split ?c p = replicate a [] @ py_split ?c ?m @ replicate b []"
    by (subst p) (simp only: py_split_replicate_prefix py_split_replicate_suffix)
  then have f: "filter ?ne (py_split ?c p) = filter ?ne (py_split ?c ?m)"
    by simp
  show ?thesis
  proof (cases "?m = []")
    case True
    then show ?thesis
      using f by (simp add: title_from_path_def final_segment_def)
  next
    case False
    with strip_char_last [of ?c p] have "last ?m \<noteq> ?c"
      by simp
    with False have "last (py_split ?c ?m) \<noteq> []"
      by (simp add: last_py_split)
    with last_filter_last [of "py_split ?c ?m" ?ne]
    have "last (filter ?ne (py_split ?c ?m)) = last (py_split ?c ?m)"
      and "filter ?ne (py_split ?c ?m) \<noteq> []"
      by simp_all
    then show ?thesis
      using f \<open>last (py_split ?c ?m) \<noteq> []\<close>
      by (simp add: title_from_path_def final_segment_def Let_def)
  qed
qed

lemma title_from_path_nonempty: "title_from_path p \<noteq> []"
  by (simp add: title_from_path_def Let_def)

lemma title_fallback_title:
  assumes "title_fallback urlparse u i = Inr i'"
  shows "truthy (title i') \<and>
         title i' = (if truthy (title i)
                     then title i
                     else JStr (case urlparse u of Inl m \<Rightarrow> [] | Inr parsed \<Rightarrow> title_from_path (path parsed)))"
  using assms
  by (auto simp: title_fallback_def call_urlparse_def truthy_def title_from_path_nonempty
      split: if_splits sum.splits)

lemma apply_json_ld_title:
  assumes "apply_json_ld j empty_info = Inr i"
  shows "\<exists>kvs. j = JObj kvs \<and>
           title i = py_or (case map_of kvs ''name'' of None \<Rightarrow> JNull | Some x \<Rightarrow> x)
                       (py_or (case map_of kvs ''headline'' of None \<Rightarrow> JNull | Some x \<Rightarrow> x) JNull)"
proof (cases j)
  case (JObj kvs)
  with assms show ?thesis
    unfolding apply_json_ld_def
    by (elim and_then_InrE) (auto simp: empty_info_def)
qed (use assms in \<open>simp_all add: apply_json_ld_def py_get_def\<close>)

lemma not_truthy_JObj: "\<not> truthy (JObj kvs) \<Longrightarrow> kvs = []"
  by (simp add: truthy_def)

lemma extract_from_text_title:
  assumes "extract_from_text json_loads urlparse u t = Inr i"
  shows "truthy (title i) \<and>
         title i = (if truthy (staged_title json_loads t)
                    then staged_title json_loads t
                    else JStr (case urlparse u of Inl m \<Rightarrow> [] | Inr parsed \<Rightarrow> title_from_path (path parsed)))"
proof -
  let ?j = "find_json_ld json_loads t"
  from assms obtain i1 i7 where
    i1: "(if truthy ?j then apply_json_ld ?j empty_info else Inr empty_info) = Inr i1"
    and i7: "title i7 = meta_fallback og_title_lit t (title i1)"
    and fb: "title_fallback urlparse u i7 = Inr i"
    by (elim extract_from_text_InrE) (metis info.select_convs(1))
  have "title i1 = (case ?j of
          JObj kvs \<Rightarrow>
            py_or (case map_of kvs ''name'' of None \<Rightarrow> JNull | Some x \<Rightarrow> x)
              (py_or (case map_of kvs ''headline'' of None \<Rightarrow> JNull | Some x \<Rightarrow> x) JNull)
        | _ \<Rightarrow> JNull)"
  proof (cases "truthy ?j")
    case True
    with i1 apply_json_ld_title [of ?j i1] show ?thesis
      by auto
  next
    case False
    with i1 have "title i1 = JNull"
      by (auto simp: empty_info_def)
    with False show ?thesis
      by (cases ?j) (auto simp: py_or_def dest: not_truthy_JObj)
  qed
  then have e7: "title i7 = staged_title json_loads t"
    by (simp add: i7 staged_title_def)
  show ?thesis
    using title_fallback_title [OF fb] unfolding e7 by blast
qed

text \<open>
  Claim C3, as amended. A record returned by the HTML extractor has a title that is not
  empty: it is the title that the extraction stages set or, when no stage set one, the
  final non-empty segment of the path of the URL, or the placeholder when the path has no
  non-empty segment.
\<close>

theorem title_never_empty:
  assumes "audiomack_extract_info http_get json_loads urlparse u = Inr i"
  shows "truthy (title i) \<and>
         (truthy (staged_title json_loads (resp_text (projr (http_get u)))) \<longrightarrow>
            title i = staged_title json_loads (resp_text (projr (http_get u)))) \<and>
         (\<forall>resp parsed. http_get u = Inr resp \<and> urlparse u = Inr parsed \<and>
            \<not> truthy (staged_title json_loads (resp_text resp)) \<longrightarrow>
              title i = JStr (case final_segment (path parsed) of
                                None \<Rightarrow> ''Audiomack Track'' | Some seg \<Rightarrow> seg))"
proof -
  from assms obtain resp where r: "http_get u = Inr resp"
    and e: "extract_from_text json_loads urlparse u (resp_text resp) = Inr i"
    by (rule audiomack_Inr)
  from extract_from_text_title [OF e] r show ?thesis
    by (auto simp: title_from_path_final_segment)
qed

theorem title_never_empty_witness:
  \<open>(\<exists>i. audiomack_extract_info
          (\<lambda>v. Inr (page_response 200 ''<p></p>''))
          (\<lambda>t. None)
          (\<lambda>v. Inr \<lparr>netloc = ''audiomack.com'', path = ''/a/song/b/''\<rparr>)
          ''https://audiomack.com/a/song/b/'' = Inr i \<and>
        truthy (title i) \<and> title i = JStr ''b'') \<and>
   (\<exists>i. audiomack_extract_info
          (\<lambda>v. Inr (page_response 200 ''<meta property="og:title" content="Song">''))
          (\<lambda>t. None)
          (\<lambda>v. Inr \<lparr>netloc = ''audiomack.com'', path = ''/a/song/b/''\<rparr>)
          ''https://audiomack.com/a/song/b/'' = Inr i \<and>
        truthy (title i) \<and> title i = JStr ''Song'')\<close>
proof (rule conjI)
  let ?t = \<open>''<p></p>''\<close>
  let ?resp = "page_response 200 ?t"
  let ?get = "\<lambda>v :: string. (Inr ?resp :: response result)"
  let ?jl = "\<lambda>t :: string. (None :: json option)"
  let ?parsed = "\<lparr>netloc = ''audiomack.com'', path = ''/a/song/b/''\<rparr>"
  let ?up = "\<lambda>v :: string. (Inr ?parsed :: string + url_parts)"
  let ?u = "''https://audiomack.com/a/song/b/''"
  let ?i = "\<lparr>title = JStr ''b'', thumbnail = JNull, uploader = JNull, duration = JNull,
             formats = []\<rparr>"
  have j: "\<not> truthy (find_json_ld ?jl ?t)"
    by (simp add: find_json_ld_def truthy_def split: option.splits)
  have m1: "meta_fallback og_title_lit ?t JNull = JNull"
    by (simp add: stage_eval)
  have m2: "meta_fallback og_image_lit ?t JNull = JNull"
    by (simp add: stage_eval)
  have m3: "meta_fallback author_lit ?t JNull = JNull"
    by (simp add: stage_eval)
  have d: "extract_duration ?t JNull = Inr JNull"
    by (simp add: stage_eval)
  have f: "find_direct_audio_urls ?t = []"
    by (simp add: stage_eval)
  have e: "audiomack_extract_info ?get ?jl ?up ?u = Inr ?i"
    by (simp add: page_200 extract_plain_page [OF j] m1 m2 m3 d f fallback_eval)
  have st: "\<not> truthy (staged_title ?jl (resp_text ?resp))"
    by (simp add: staged_title_def page_response_def m1 truthy_def find_json_ld_def
        split: option.splits)
  have seg: "final_segment ''/a/song/b/'' = Some ''b''"
    by (simp add: final_segment_def Let_def)
  note t = title_never_empty [where http_get = ?get and u = ?u and json_loads = ?jl
      and urlparse = ?up and i = ?i, OF e]
  from t [THEN conjunct1] have 1: "truthy (title ?i)" .
  from t [THEN conjunct2, THEN conjunct2, rule_format, of ?resp ?parsed] st
  have 2: "title ?i = JStr (case final_segment (path ?parsed) of
                              None \<Rightarrow> ''Audiomack Track'' | Some seg \<Rightarrow> seg)"
    by simp
  from e 1 2 show "\<exists>i. audiomack_extract_info ?get ?jl ?up ?u = Inr i \<and>
      truthy (title i) \<and> title i = JStr ''b''"
    by (simp add: seg)
next
  let ?t = \<open>''<meta property="og:title" content="Song">''\<close>
  let ?resp = "page_response 200 ?t"
  let ?get = "\<lambda>v :: string. (Inr ?resp :: response result)"
  let ?jl = "\<lambda>t :: string. (None :: json option)"
  let ?parsed = "\<lparr>netloc = ''audiomack.com'', path = ''/a/song/b/''\<rparr>"
  let ?up = "\<lambda>v :: string. (Inr ?parsed :: string + url_parts)"
  let ?u = "''https://audiomack.com/a/song/b/''"
  let ?i = "\<lparr>title = JStr ''Song'', thumbnail = JNull, uploader = JNull, duration = JNull,
             formats = []\<rparr>"
  have j: "\<not> truthy (find_json_ld ?jl ?t)"
    by (simp add: find_json_ld_def truthy_def split: option.splits)
  have m1: "meta_fallback og_title_lit ?t JNull = JStr ''Song''"
    by (simp add: stage_eval)
  have m2: "meta_fallback og_image_lit ?t JNull = JNull"
    by (simp add: stage_eval)
  have m3: "meta_fallback author_lit ?t JNull = JNull"
    by (simp add: stage_eval)
  have d: "extract_duration ?t JNull = Inr JNull"
    by (simp add: stage_eval)
  have f: "find_direct_audio_urls ?t = []"
    by (simp add: stage_eval)
  have e: "audiomack_extract_info ?get ?jl ?up ?u = Inr ?i"
    by (simp add: page_200 extract_plain_page [OF j] m1 m2 m3 d f fallback_eval)
  have st: "staged_title ?jl (resp_text (projr (?get ?u))) = JStr ''Song''"
    by (simp add: staged_title_def page_response_def m1 find_json_ld_def split: option.splits)
  note t = title_never_empty [where http_get = ?get and u = ?u and json_loads = ?jl
      and urlparse = ?up and i = ?i, OF e]
  from t [THEN conjunct1] have 1: "truthy (title ?i)" .
  from t [THEN conjunct2, THEN conjunct1] st
  have 2: "title ?i = JStr ''Song''"
    by (simp add: truthy_def)
  from e 1 2 show "\<exists>i. audiomack_extract_info ?get ?jl ?up ?u = Inr i \<and>
      truthy (title i) \<and> title i = JStr ''Song''"
    by simp
qed

theorem title_unset_counterexample:
  "fst (spotify_extract_info
          \<lparr>bearer_token = Some ''tok'', client_id = None, client_secret = None\<rparr>
          (\<lambda>rq. Inr (json_response 200 (JObj [])))
          (\<lambda>v. Inr \<lparr>netloc = ''open.spotify.com'', path = ''/track/abc''\<rparr>)
          ''https://open.spotify.com/track/abc'')
     = Inr \<lparr>title = JNull, thumbnail = JNull, uploader = JNull, duration = JInt 0,
            formats = []\<rparr> \<and>
   \<not> truthy JNull"
proof (rule conjI)
  show "\<not> truthy JNull"
    by (simp add: truthy_def)
qed code_simp

subsection \<open>The structured-data block\<close>

text \<open>
  Claim C9, as amended. When the structured-data block of the page parses as JSON to a
  value that is not an object, the extractor raises the \<open>AttributeError\<close> for the missing
  \<open>get\<close> if the value is truthy (a non-empty array or string, a non-zero number, \<open>true\<close>);
  if the value is falsy (\<open>null\<close>, \<open>false\<close>, zero, the empty string, the empty array) the
  block is treated as absent and the extraction goes on as if the block did not parse.
\<close>

theorem structured_data_not_object:
  assumes "http_get u = Inr resp" "status_code resp = 200"
    and "re_search match_json_ld (resp_text resp) = Some g"
    and "json_loads (py_strip g) = Some j"
    and "\<forall>kvs. j \<noteq> JObj kvs"
  shows "(truthy j \<longrightarrow>
            audiomack_extract_info http_get json_loads urlparse u = Inl (no_attribute j ''get'')) \<and>
         (\<not> truthy j \<longrightarrow>
            audiomack_extract_info http_get json_loads urlparse u
              = audiomack_extract_info http_get (\<lambda>t. None) urlparse u)"
proof -
  have j: "find_json_ld json_loads (resp_text resp) = j"
    using assms(3,4) by (simp add: find_json_ld_def)
  have n: "find_json_ld (\<lambda>t. None) (resp_text resp) = JNull"
    by (simp add: find_json_ld_def split: option.splits)
  have g: "py_get j ''name'' JNull = Inl (no_attribute j ''get'')"
    using assms(5) by (cases j) (simp_all add: py_get_def)
  have t: "\<not> truthy JNull"
    by (simp add: truthy_def)
  show ?thesis
    using assms(1,2)
    by (simp add: audiomack_extract_info_def extract_from_text_def j n g t apply_json_ld_def)
qed

theorem structured_data_not_object_witness:
  \<open>audiomack_extract_info
     (\<lambda>v. Inr (page_response 200 ''<script type="application/ld+json">[1]</script>''))
     (\<lambda>t. if t = ''[1]'' then Some (JArr [JInt 1]) else None)
     (\<lambda>v. Inr \<lparr>netloc = ''audiomack.com'', path = ''/a/song/b''\<rparr>)
     ''https://audiomack.com/a/song/b''
   = Inl (no_attribute (JArr [JInt 1]) ''get'') \<and>
   audiomack_extract_info
     (\<lambda>v. Inr (page_response 200 ''<script type="application/ld+json">[]</script>''))
     (\<lambda>t. if t = ''[]'' then Some (JArr []) else None)
     (\<lambda>v. Inr \<lparr>netloc = ''audiomack.com'', path = ''/a/song/b''\<rparr>)
     ''https://audiomack.com/a/song/b''
   = audiomack_extract_info
     (\<lambda>v. Inr (page_response 200 ''<script type="application/ld+json">[]</script>''))
     (\<lambda>t. None)
     (\<lambda>v. Inr \<lparr>netloc = ''audiomack.com'', path = ''/a/song/b''\<rparr>)
     ''https://audiomack.com/a/song/b''\<close>
proof -
  let ?t1 = \<open>''<script type="application/ld+json">[1]</script>''\<close>
  let ?t0 = \<open>''<script type="application/ld+json">[]</script>''\<close>
  let ?jl1 = "\<lambda>t. if t = ''[1]'' then Some (JArr [JInt 1]) else None"
  let ?jl0 = "\<lambda>t. if t = ''[]'' then Some (JArr []) else None"
  let ?up = "\<lambda>v :: string. (Inr \<lparr>netloc = ''audiomack.com'', path = ''/a/song/b''\<rparr> :: string + url_parts)"
  let ?u = "''https://audiomack.com/a/song/b''"
  have b1: "re_search match_json_ld (resp_text (page_response 200 ?t1)) = Some ''[1]''"
    by (simp add: page_response_def match_eval Let_def)
  have b0: "re_search match_json_ld (resp_text (page_response 200 ?t0)) = Some ''[]''"
    by (simp add: page_response_def match_eval Let_def)
  have l1: "?jl1 (py_strip ''[1]'') = Some (JArr [JInt 1])"
    by (simp add: py_strip_def py_isspace_def)
  have l0: "?jl0 (py_strip ''[]'') = Some (JArr [])"
    by (simp add: py_strip_def py_isspace_def)
  have s: "status_code (page_response 200 t) = 200" for t
    by (simp add: page_response_def)
  have "audiomack_extract_info (\<lambda>v. Inr (page_response 200 ?t1)) ?jl1 ?up ?u
          = Inl (no_attribute (JArr [JInt 1]) ''get'')"
    using structured_data_not_object [where http_get = "\<lambda>v. Inr (page_response 200 ?t1)"
        and u = ?u and resp = "page_response 200 ?t1" and json_loads = ?jl1 and urlparse = ?up
        and g = "''[1]''" and j = "JArr [JInt 1]", OF refl s b1 l1, THEN conjunct1]
    by (simp add: truthy_def)
  moreover have "audiomack_extract_info (\<lambda>v. Inr (page_response 200 ?t0)) ?jl0 ?up ?u
          = audiomack_extract_info (\<lambda>v. Inr (page_response 200 ?t0)) (\<lambda>t. None) ?up ?u"
    using structured_data_not_object [where http_get = "\<lambda>v. Inr (page_response 200 ?t0)"
        and u = ?u and resp = "page_response 200 ?t0" and json_loads = ?jl0 and urlparse = ?up
        and g = "''[]''" and j = "JArr []", OF refl s b0 l0, THEN conjunct2]
    by (simp add: truthy_def)
  ultimately show ?thesis
    by simp
qed


theorem structured_data_empty_array_counterexample:
  \<open>re_search match_json_ld ''<script type="application/ld+json">[]</script>'' = Some ''[]'' \<and>
   audiomack_extract_info
     (\<lambda>v. Inr (page_response 200 ''<script type="application/ld+json">[]</script>''))
     (\<lambda>t. if t = ''[]'' then Some (JArr []) else None)
     (\<lambda>v. Inr \<lparr>netloc = ''audiomack.com'', path = ''/a/song/b''\<rparr>)
     ''https://audiomack.com/a/song/b''
   = Inr \<lparr>title = JStr ''b'', thumbnail = JNull, uploader = JNull, duration = JNull,
          formats = []\<rparr>\<close>
proof -
  let ?t = \<open>''<script type="application/ld+json">[]</script>''\<close>
  let ?jl = "\<lambda>t. if t = ''[]'' then Some (JArr []) else None"
  have b: "re_search match_json_ld ?t = Some ''[]''"
    by (simp add: match_eval Let_def)
  have j: "\<not> truthy (find_json_ld ?jl ?t)"
    unfolding find_json_ld_def b by (simp add: py_strip_def py_isspace_def truthy_def)
  have m1: "meta_fallback og_title_lit ?t JNull = JNull"
    by (simp add: stage_eval)
  have m2: "meta_fallback og_image_lit ?t JNull = JNull"
    by (simp add: stage_eval)
  have m3: "meta_fallback author_lit ?t JNull = JNull"
    by (simp add: stage_eval)
  have d: "extract_duration ?t JNull = Inr JNull"
    by (simp add: stage_eval)
  have f: "find_direct_audio_urls ?t = []"
    by (simp add: stage_eval)
  have e: "audiomack_extract_info (\<lambda>v. Inr (page_response 200 ?t)) ?jl
             (\<lambda>v. Inr \<lparr>netloc = ''audiomack.com'', path = ''/a/song/b''\<rparr>)
             ''https://audiomack.com/a/song/b''
           = Inr \<lparr>title = JStr ''b'', thumbnail = JNull, uploader = JNull, duration = JNull,
                  formats = []\<rparr>"
    by (simp add: page_200 extract_plain_page [OF j] m1 m2 m3 d f fallback_eval)
  from b e show ?thesis
    by (rule conjI)
qed


subsection \<open>The duration\<close>

lemma re_search_skip:
  "(\<forall>k<length pre. m (drop k (pre @ s)) = None) \<Longrightarrow> re_search m (pre @ s) = re_search m s"
proof (induction pre)
  case Nil
  then show ?case by simp
next
  case (Cons c pre)
  from Cons.prems have "m (drop 0 ((c # pre) @ s)) = None"
    by blast
  then have 0: "m (c # pre @ s) = None"
    by simp
  have "\<forall>k<length pre. m (drop k (pre @ s)) = None"
  proof (intro allI impI)
    fix k
    assume "k < length pre"
    then have "Suc k < length (c # pre)"
      by simp
    with Cons.prems have "m (drop (Suc k) ((c # pre) @ s)) = None"
      by blast
    then show "m (drop k (pre @ s)) = None"
      by simp
  qed
  with Cons.IH 0 show ?case
    by simp
qed

lemma re_search_hit: "m s = Some r \<Longrightarrow> re_search m s = Some r"
  by (cases s) simp_all

lemma match_duration_fragment:
  "match_duration (duration_fragment @ post) = Some (Some ''3'', Some ''27'')"
  by (simp add: duration_fragment_def match_eval Let_def)

lemma apply_json_ld_duration: "apply_json_ld j i = Inr i' \<Longrightarrow> duration i' = duration i"
  unfolding apply_json_ld_def
  by (elim and_then_InrE) auto

lemma title_fallback_duration: "title_fallback urlparse u i = Inr i' \<Longrightarrow> duration i' = duration i"
  by (auto simp: title_fallback_def call_urlparse_def split: if_splits sum.splits)


lemma extract_from_text_duration:
  assumes "extract_from_text json_loads urlparse u t = Inr i"
  shows "extract_duration t JNull = Inr (duration i)"
proof -
  from assms obtain i1 i7 d where
    i1: "(if truthy (find_json_ld json_loads t)
          then apply_json_ld (find_json_ld json_loads t) empty_info else Inr empty_info) = Inr i1"
    and d: "extract_duration t (duration i1) = Inr d"
    and d7: "duration i7 = d"
    and fb: "title_fallback urlparse u i7 = Inr i"
    by (elim extract_from_text_InrE) (metis info.select_convs(4))
  from i1 have "duration i1 = JNull"
    by (auto simp: empty_info_def dest: apply_json_ld_duration split: if_splits)
  with d d7 title_fallback_duration [OF fb] show ?thesis
    by simp
qed

lemma extract_from_text_returns:
  assumes "\<not> truthy (find_json_ld json_loads t)" "urlparse u = Inr parsed"
    and "extract_duration t JNull = Inr d"
  shows "\<exists>i. extract_from_text json_loads urlparse u t = Inr i"
  using assms
  by (simp add: extract_plain_page title_fallback_def call_urlparse_def)

lemma extract_duration_fragment:
  assumes "\<forall>k<length pre. match_duration (drop k (pre @ duration_fragment @ post)) = None"
  shows "extract_duration (pre @ duration_fragment @ post) cur = Inr (JInt 207)"
proof -
  have "re_search match_duration (pre @ duration_fragment @ post)
          = re_search match_duration (duration_fragment @ post)"
    using assms by (rule re_search_skip)
  also have "\<dots> = Some (Some ''3'', Some ''27'')"
    by (rule re_search_hit) (rule match_duration_fragment)
  finally show ?thesis
    by (simp add: extract_duration_def group_int_def int_eval Let_def)
qed

text \<open>
  Claim C5, as amended. When the first match of the duration pattern in the page text is
  at the fragment \<^verbatim>\<open>"duration":"PT3M27S"\<close>, the record returned by the HTML extractor has
  the duration 207; when the pattern matches nowhere, the returned record has no duration;
  and in both cases the extractor does return a record, provided that the page has no
  truthy structured-data block and the URL parses.
\<close>

theorem duration_from_first_match:
  assumes "http_get u = Inr resp" "status_code resp = 200"
  shows "(\<forall>i pre post.
            audiomack_extract_info http_get json_loads urlparse u = Inr i \<and>
            resp_text resp = pre @ duration_fragment @ post \<and>
            (\<forall>k<length pre. match_duration (drop k (resp_text resp)) = None)
              \<longrightarrow> duration i = JInt 207) \<and>
         (\<forall>i. audiomack_extract_info http_get json_loads urlparse u = Inr i \<and>
              re_search match_duration (resp_text resp) = None
              \<longrightarrow> duration i = JNull) \<and>
         (\<not> truthy (find_json_ld json_loads (resp_text resp)) \<and> (\<exists>parsed. urlparse u = Inr parsed) \<and>
          (re_search match_duration (resp_text resp) = None \<or>
           (\<exists>pre post. resp_text resp = pre @ duration_fragment @ post \<and>
              (\<forall>k<length pre. match_duration (drop k (resp_text resp)) = None)))
              \<longrightarrow> (\<exists>i. audiomack_extract_info http_get json_loads urlparse u = Inr i))"
proof -
  let ?t = "resp_text resp"
  have r: "audiomack_extract_info http_get json_loads urlparse u
             = extract_from_text json_loads urlparse u ?t"
    using assms by (simp add: audiomack_extract_info_def)
  have f: "extract_duration ?t cur = Inr (JInt 207)"
    if "?t = pre @ duration_fragment @ post"
      and "\<forall>k<length pre. match_duration (drop k ?t) = None"
    for pre post cur
    using extract_duration_fragment [of pre post cur] that by simp
  have n: "extract_duration ?t cur = Inr cur"
    if "re_search match_duration ?t = None" for cur
    using that by (simp add: extract_duration_def)
  have a: "duration i = JInt 207"
    if "extract_from_text json_loads urlparse u ?t = Inr i"
      and "?t = pre @ duration_fragment @ post"
      and "\<forall>k<length pre. match_duration (drop k ?t) = None"
    for i pre post
    using extract_from_text_duration [OF that(1)] f [OF that(2,3), of JNull] by simp
  have b: "duration i = JNull"
    if "extract_from_text json_loads urlparse u ?t = Inr i"
      and "re_search match_duration ?t = None"
    for i
    using extract_from_text_duration [OF that(1)] n [OF that(2), of JNull] by simp
  have c: "\<exists>i. extract_from_text json_loads urlparse u ?t = Inr i"
    if "\<not> truthy (find_json_ld json_loads ?t)" "urlparse u = Inr parsed"
      and "re_search match_duration ?t = None \<or>
           (\<exists>pre post. ?t = pre @ duration_fragment @ post \<and>
              (\<forall>k<length pre. match_duration (drop k ?t) = None))"
    for parsed
  proof -
    from that(3) obtain d where "extract_duration ?t JNull = Inr d"
      using n [of JNull] f [of _ _ JNull] by blast
    with that(1,2) show ?thesis
      by (rule extract_from_text_returns)
  qed
  show ?thesis
    unfolding r using a b c by blast
qed

theorem duration_from_first_match_witness:
  \<open>(\<exists>i. audiomack_extract_info
          (\<lambda>v. Inr (page_response 200 ''<p>"duration":"PT3M27S"</p>''))
          (\<lambda>t. None)
          (\<lambda>v. Inr \<lparr>netloc = ''audiomack.com'', path = ''/a/song/b''\<rparr>)
          ''https://audiomack.com/a/song/b'' = Inr i \<and>
        duration i = JInt 207) \<and>
   (\<exists>i. audiomack_extract_info
          (\<lambda>v. Inr (page_response 200 ''<p></p>''))
          (\<lambda>t. None)
          (\<lambda>v. Inr \<lparr>netloc = ''audiomack.com'', path = ''/a/song/b''\<rparr>)
          ''https://audiomack.com/a/song/b'' = Inr i \<and>
        duration i = JNull)\<close>
proof (rule conjI)
  let ?t = \<open>''<p>"duration":"PT3M27S"</p>''\<close>
  let ?resp = "page_response 200 ?t"
  let ?get = "\<lambda>v :: string. (Inr ?resp :: response result)"
  let ?jl = "\<lambda>t :: string. (None :: json option)"
  let ?up = "\<lambda>v :: string. (Inr \<lparr>netloc = ''audiomack.com'', path = ''/a/song/b''\<rparr> :: string + url_parts)"
  let ?u = "''https://audiomack.com/a/song/b''"
  have g: "?get ?u = Inr ?resp" and s: "status_code ?resp = 200"
    by (simp_all add: page_response_def)
  have j: "\<not> truthy (find_json_ld ?jl (resp_text ?resp))"
    by (simp add: find_json_ld_def truthy_def split: option.splits)
  have split: "resp_text ?resp = ''<p>'' @ duration_fragment @ ''</p>''"
    by (simp add: page_response_def duration_fragment_def)
  have none: "\<forall>k<length ''<p>''. match_duration (drop k (resp_text ?resp)) = None"
    by (simp add: page_response_def less_Suc_eq match_eval Let_def)
  note t = duration_from_first_match [where http_get = ?get and u = ?u and resp = ?resp
      and json_loads = ?jl and urlparse = ?up, OF g s]
  from t [THEN conjunct2, THEN conjunct2] j split none
  obtain i where i: "audiomack_extract_info ?get ?jl ?up ?u = Inr i"
    by blast
  from t [THEN conjunct1, rule_format, of i "''<p>''" "''</p>''"] i split none
  have "duration i = JInt 207"
    by blast
  with i show "\<exists>i. audiomack_extract_info ?get ?jl ?up ?u = Inr i \<and> duration i = JInt 207"
    by blast
next
  let ?t = \<open>''<p></p>''\<close>
  let ?resp = "page_response 200 ?t"
  let ?get = "\<lambda>v :: string. (Inr ?resp :: response result)"
  let ?jl = "\<lambda>t :: string. (None :: json option)"
  let ?up = "\<lambda>v :: string. (Inr \<lparr>netloc = ''audiomack.com'', path = ''/a/song/b''\<rparr> :: string + url_parts)"
  let ?u = "''https://audiomack.com/a/song/b''"
  have g: "?get ?u = Inr ?resp" and s: "status_code ?resp = 200"
    by (simp_all add: page_response_def)
  have j: "\<not> truthy (find_json_ld ?jl (resp_text ?resp))"
    by (simp add: find_json_ld_def truthy_def split: option.splits)
  have none: "re_search match_duration (resp_text ?resp) = None"
    by (simp add: page_response_def match_eval Let_def)
  note t = duration_from_first_match [where http_get = ?get and u = ?u and resp = ?resp
      and json_loads = ?jl and urlparse = ?up, OF g s]
  from t [THEN conjunct2, THEN conjunct2] j none
  obtain i where i: "audiomack_extract_info ?get ?jl ?up ?u = Inr i"
    by blast
  from t [THEN conjunct2, THEN conjunct1, rule_format, of i] i none
  have "duration i = JNull"
    by blast
  with i show "\<exists>i. audiomack_extract_info ?get ?jl ?up ?u = Inr i \<and> duration i = JNull"
    by blast
qed

theorem duration_fragment_counterexample:
  \<open>py_contains duration_fragment ''"duration":"PT1M" "duration":"PT3M27S"'' \<and>
   audiomack_extract_info
     (\<lambda>v. Inr (page_response 200 ''"duration":"PT1M" "duration":"PT3M27S"''))
     (\<lambda>t. None)
     (\<lambda>v. Inr \<lparr>netloc = ''audiomack.com'', path = ''/a/song/b''\<rparr>)
     ''https://audiomack.com/a/song/b''
   = Inr \<lparr>title = JStr ''b'', thumbnail = JNull, uploader = JNull, duration = JInt 60,
          formats = []\<rparr>\<close>
proof -
  let ?t = \<open>''"duration":"PT1M" "duration":"PT3M27S"''\<close>
  let ?jl = "\<lambda>t :: string. (None :: json option)"
  let ?up = "\<lambda>v :: string. (Inr \<lparr>netloc = ''audiomack.com'', path = ''/a/song/b''\<rparr> :: string + url_parts)"
  have c: "py_contains duration_fragment ?t"
    by (simp add: duration_fragment_def py_startswith_eval)
  have j: "\<not> truthy (find_json_ld ?jl ?t)"
    by (simp add: find_json_ld_def truthy_def split: option.splits)
  have m1: "meta_fallback og_title_lit ?t JNull = JNull"
    by (simp add: stage_eval)
  have m2: "meta_fallback og_image_lit ?t JNull = JNull"
    by (simp add: stage_eval)
  have m3: "meta_fallback author_lit ?t JNull = JNull"
    by (simp add: stage_eval)
  have d: "extract_duration ?t JNull = Inr (JInt 60)"
    by (simp add: stage_eval)
  have f: "find_direct_audio_urls ?t = []"
    by (simp add: stage_eval)
  have e: "audiomack_extract_info (\<lambda>v. Inr (page_response 200 ?t)) ?jl ?up
             ''https://audiomack.com/a/song/b''
           = Inr \<lparr>title = JStr ''b'', thumbnail = JNull, uploader = JNull, duration = JInt 60,
                  formats = []\<rparr>"
    by (simp add: page_200 extract_plain_page [OF j] m1 m2 m3 d f fallback_eval)
  from c e show ?thesis
    by (rule conjI)
qed

section \<open>The streaming downloader: claims\<close>

subsection \<open>The download loop\<close>

lemma total_of_16384: "total_of (Some ''16384'') = Inr 16384"
  by code_simp

lemma percentage_of_half: "percentage_of 8192 16384 = Inr 50"
  by code_simp

lemma percentage_of_all: "percentage_of 16384 16384 = Inr 100"
  by code_simp

lemma downloading_event_unknown_total:
  "downloading_event clock k d 0 =
     (case speed_of d (clock k) of
        Inl e \<Rightarrow> Inl e
      | Inr sp \<Rightarrow> Inr \<lparr>status = ''downloading'', downloaded_bytes = d, total_bytes = 0,
                       percentage = 0, speed = Some sp\<rparr>)"
  by (simp add: downloading_event_def percentage_of_def and_then_def split: sum.splits)

lemma write_loop_events:
  "write_loop fs cb clock 0 items (d, w, evs) = (r, d', w', evs') \<Longrightarrow>
     \<exists>more. evs' = evs @ more \<and>
       (\<forall>ev \<in> set more. status ev = ''downloading'' \<and> percentage ev = 0 \<and> total_bytes ev = 0)"
proof (induction items arbitrary: d w evs)
  case Nil
  then show ?case by simp
next
  case (Cons a items)
  show ?case
  proof (cases a)
    case (StreamError e)
    with Cons.prems show ?thesis by simp
  next
    case (Chunk c)
    show ?thesis
    proof (cases "c = []")
      case True
      with Chunk Cons.prems Cons.IH [of d w evs] show ?thesis by simp
    next
      case False
      note ne = False
      show ?thesis
      proof (cases "write_chunk fs w c")
        case (Some e)
        with Chunk ne Cons.prems show ?thesis by simp
      next
        case None
        show ?thesis
        proof (cases cb)
          case False
          with Chunk ne None Cons.prems Cons.IH [of "d + int (length c)" "w @ c" evs]
          show ?thesis by (simp add: Let_def)
        next
          case True
          show ?thesis
          proof (cases "speed_of (d + int (length c)) (clock (length evs))")
            case (Inl e)
            with Chunk ne None True Cons.prems show ?thesis
              by (simp add: downloading_event_unknown_total Let_def)
          next
            case (Inr sp)
            let ?ev = "\<lparr>status = ''downloading'', downloaded_bytes = d + int (length c),
                        total_bytes = 0, percentage = 0, speed = Some sp\<rparr>"
            from Chunk ne None True Inr Cons.prems
            have "write_loop fs cb clock 0 items (d + int (length c), w @ c, evs @ [?ev])
                    = (r, d', w', evs')"
              by (simp add: downloading_event_unknown_total Let_def)
            from Cons.IH [OF this] obtain more where
              "evs' = (evs @ [?ev]) @ more"
              "\<forall>ev \<in> set more. status ev = ''downloading'' \<and> percentage ev = 0 \<and> total_bytes ev = 0"
              by blast
            then have "evs' = evs @ (?ev # more) \<and>
                (\<forall>ev \<in> set (?ev # more).
                   status ev = ''downloading'' \<and> percentage ev = 0 \<and> total_bytes ev = 0)"
              by simp
            then show ?thesis
              by blast
          qed
        qed
      qed
    qed
  qed
qed

lemma write_loop_completed:
  "write_loop fs cb clock tot items (d, w, evs) = (None, d', w', evs') \<Longrightarrow>
     w' = w @ stream_bytes items \<and> d' = d + int (length (stream_bytes items)) \<and>
     (\<not> cb \<longrightarrow> evs' = evs)"
proof (induction items arbitrary: d w evs)
  case Nil
  then show ?case by simp
next
  case (Cons a items)
  show ?case
  proof (cases a)
    case (StreamError e)
    with Cons.prems show ?thesis by simp
  next
    case (Chunk c)
    show ?thesis
    proof (cases "c = []")
      case True
      with Chunk Cons.prems Cons.IH [of d w evs] show ?thesis by simp
    next
      case False
      with Chunk Cons.prems have wc: "write_chunk fs w c = None"
        by (auto split: option.splits)
      show ?thesis
      proof (cases cb)
        case False
        with Chunk \<open>c \<noteq> []\<close> wc Cons.prems
        have "write_loop fs cb clock tot items (d + int (length c), w @ c, evs)
                = (None, d', w', evs')"
          by (simp add: Let_def)
        from Cons.IH [OF this] Chunk False show ?thesis
          by simp
      next
        case True
        with Chunk \<open>c \<noteq> []\<close> wc Cons.prems obtain ev where
          "write_loop fs cb clock tot items (d + int (length c), w @ c, evs @ [ev])
                = (None, d', w', evs')"
          by (auto simp: Let_def split: sum.splits)
        from Cons.IH [OF this] Chunk True show ?thesis
          by simp
      qed
    qed
  qed
qed

lemma write_loop_succeeds:
  assumes "\<forall>w c. write_chunk fs w c = None"
    and "\<forall>e. StreamError e \<notin> set items"
    and "\<forall>k n. d \<le> n \<and> n \<le> d + int (length (stream_bytes items))
           \<longrightarrow> (\<exists>s. speed_of n (clock k) = Inr s)"
  shows "fst (write_loop fs cb clock 0 items (d, w, evs)) = None"
  using assms(2,3)
proof (induction items arbitrary: d w evs)
  case Nil
  then show ?case by simp
next
  case (Cons a items)
  from Cons.prems(1) obtain c where a: "a = Chunk c"
    by (cases a) auto
  from Cons.prems(1) have no: "\<forall>e. StreamError e \<notin> set items"
    by simp
  show ?case
  proof (cases "c = []")
    case True
    with a Cons.prems(2) have "\<forall>k n. d \<le> n \<and> n \<le> d + int (length (stream_bytes items))
           \<longrightarrow> (\<exists>s. speed_of n (clock k) = Inr s)"
      by simp
    from Cons.IH [OF no this] a True show ?thesis
      by simp
  next
    case False
    let ?d = "d + int (length c)"
    have sp: "\<forall>k n. ?d \<le> n \<and> n \<le> ?d + int (length (stream_bytes items))
           \<longrightarrow> (\<exists>s. speed_of n (clock k) = Inr s)"
      using Cons.prems(2) a by auto
    from Cons.prems(2) a obtain s where s: "speed_of ?d (clock (length evs)) = Inr s"
      by fastforce
    from Cons.IH [OF no sp] a False assms(1) s show ?thesis
      by (cases cb) (simp_all add: downloading_event_unknown_total Let_def)
  qed
qed

text \<open>
  Claim C2. A response with status 200 and \<open>Content-Length: 16384\<close>, whose body arrives as
  two chunks of 8192 bytes, is written to the destination file, which then holds the 16384
  bytes; the callback receives a report at 50 percent, a report at exactly 100 percent, and
  a last report with status \<open>finished\<close>. This holds when the file system raises nothing and
  the two computations of the speed return.
\<close>

theorem download_two_chunks:
  assumes "http_get u = Inr resp" "status_code resp = 200"
    and "content_length resp = Some ''16384''"
    and "iter_content resp = [Chunk c1, Chunk c2]"
    and "length c1 = 8192" "length c2 = 8192"
    and "makedirs fs (if dirname output_path \<noteq> [] then dirname output_path else ''.'') = None"
    and "open_wb fs output_path = None"
    and "write_chunk fs [] c1 = None" "write_chunk fs c1 c2 = None"
    and "speed_of 8192 (clock 0) = Inr s1" "speed_of 16384 (clock 1) = Inr s2"
  shows "download_direct http_get fs clock u output_path True =
           \<lparr>raised = None, dest_file = Some (c1 @ c2),
            events =
              [\<lparr>status = ''downloading'', downloaded_bytes = 8192, total_bytes = 16384,
                 percentage = 50, speed = Some s1\<rparr>,
               \<lparr>status = ''downloading'', downloaded_bytes = 16384, total_bytes = 16384,
                 percentage = 100, speed = Some s2\<rparr>,
               \<lparr>status = ''finished'', downloaded_bytes = 16384, total_bytes = 16384,
                 percentage = 100, speed = None\<rparr>]\<rparr> \<and>
         length (c1 @ c2) = 16384"
proof -
  from assms(5,6) have ne: "c1 \<noteq> []" "c2 \<noteq> []"
    by auto
  have e1: "downloading_event clock 0 8192 16384 =
      Inr \<lparr>status = ''downloading'', downloaded_bytes = 8192, total_bytes = 16384,
           percentage = 50, speed = Some s1\<rparr>"
    by (simp add: downloading_event_def assms(11) percentage_of_half)
  have e2: "downloading_event clock (Suc 0) 16384 16384 =
      Inr \<lparr>status = ''downloading'', downloaded_bytes = 16384, total_bytes = 16384,
           percentage = 100, speed = Some s2\<rparr>"
    using assms(12) by (simp add: downloading_event_def percentage_of_all)
  have w: "write_loop fs True clock 16384 (iter_content resp) (0, [], []) =
      (None, 16384, c1 @ c2,
       [\<lparr>status = ''downloading'', downloaded_bytes = 8192, total_bytes = 16384,
          percentage = 50, speed = Some s1\<rparr>,
        \<lparr>status = ''downloading'', downloaded_bytes = 16384, total_bytes = 16384,
          percentage = 100, speed = Some s2\<rparr>])"
    unfolding assms(4) by (simp add: ne assms(5,6,9,10) e1 e2)
  show ?thesis
    by (simp add: download_direct_def assms(1-3,5-8) total_of_16384 w)
qed

theorem download_two_chunks_witness:
  "download_direct
     (\<lambda>v. Inr (stream_response (Some ''16384'')
        [Chunk (replicate 8192 CHR ''a''), Chunk (replicate 8192 CHR ''b'')]))
     fs_ok (\<lambda>k. of_nat (Suc k)) ''https://cdn.example.com/a.mp3'' ''out/a.mp3'' True =
     \<lparr>raised = None,
      dest_file = Some (replicate 8192 CHR ''a'' @ replicate 8192 CHR ''b''),
      events =
        [\<lparr>status = ''downloading'', downloaded_bytes = 8192, total_bytes = 16384,
           percentage = 50, speed = Some 8192\<rparr>,
         \<lparr>status = ''downloading'', downloaded_bytes = 16384, total_bytes = 16384,
           percentage = 100, speed = Some 8192\<rparr>,
         \<lparr>status = ''finished'', downloaded_bytes = 16384, total_bytes = 16384,
           percentage = 100, speed = None\<rparr>]\<rparr> \<and>
   length (replicate 8192 CHR ''a'' @ replicate 8192 CHR ''b'') = 16384"
proof -
  let ?resp = "stream_response (Some ''16384'')
        [Chunk (replicate 8192 CHR ''a''), Chunk (replicate 8192 CHR ''b'')]"
  have s1: "speed_of 8192 1 = Inr 8192"
    by code_simp
  have s2: "speed_of 16384 2 = Inr 8192"
    by code_simp
  show ?thesis
    by (rule download_two_chunks [where resp = ?resp and ?s1.0 = 8192 and ?s2.0 = 8192])
      (simp_all add: stream_response_def fs_ok_def s1 s2)
qed

text \<open>
  Claim C8, as amended. When the response has no \<open>Content-Length\<close> header, every report
  made while downloading carries the percentage 0 and the total 0, and the only other
  report is the final one, with status \<open>finished\<close>, whose percentage is the fixed 100. When
  the download completes, the destination file holds the bytes of the stream and the final
  report carries their number as the downloaded byte count. The download completes when
  the file system raises nothing, the stream delivers all its chunks and no computation of
  the speed overflows.
\<close>

theorem no_content_length:
  assumes "http_get u = Inr resp" "status_code resp = 200"
    and "content_length resp = None"
  shows "(let out = download_direct http_get fs clock u output_path cb;
              n = int (length (stream_bytes (iter_content resp)));
              fin = \<lparr>status = ''finished'', downloaded_bytes = n, total_bytes = 0,
                      percentage = 100, speed = None\<rparr>
          in (\<forall>ev \<in> set (events out).
                total_bytes ev = 0 \<and>
                (status ev = ''downloading'' \<and> percentage ev = 0 \<or>
                 status ev = ''finished'' \<and> percentage ev = 100)) \<and>
             (raised out = None \<longrightarrow>
                dest_file out = Some (stream_bytes (iter_content resp)) \<and>
                (if cb
                 then \<exists>evs. events out = evs @ [fin] \<and>
                        (\<forall>ev \<in> set evs. status ev = ''downloading'' \<and> percentage ev = 0)
                 else events out = [])) \<and>
             (makedirs fs (if dirname output_path \<noteq> [] then dirname output_path else ''.'') = None \<and>
              open_wb fs output_path = None \<and>
              (\<forall>w c. write_chunk fs w c = None) \<and>
              (\<forall>e. StreamError e \<notin> set (iter_content resp)) \<and>
              (\<forall>k d. 0 \<le> d \<and> d \<le> n \<longrightarrow> (\<exists>s. speed_of d (clock k) = Inr s))
                \<longrightarrow> raised out = None))"
proof -
  let ?items = "iter_content resp"
  let ?dir = "if dirname output_path \<noteq> [] then dirname output_path else ''.''"
  let ?out = "download_direct http_get fs clock u output_path cb"
  let ?n = "int (length (stream_bytes ?items))"
  let ?fin = "\<lparr>status = ''finished'', downloaded_bytes = ?n, total_bytes = 0,
                percentage = 100, speed = None\<rparr>"
  obtain r d w evs where wl: "write_loop fs cb clock 0 ?items (0, [], []) = (r, d, w, evs)"
    by (metis prod_cases4)
  from write_loop_events [OF wl]
  have dl: "\<forall>ev \<in> set evs. status ev = ''downloading'' \<and> percentage ev = 0 \<and> total_bytes ev = 0"
    by simp
  have out: "?out =
      (case makedirs fs ?dir of
         Some e \<Rightarrow> failed e
       | None \<Rightarrow>
           (case open_wb fs output_path of
              Some e \<Rightarrow> failed (wrap_io e)
            | None \<Rightarrow>
                (case r of
                   Some e \<Rightarrow> \<lparr>raised = Some (wrap_io e), dest_file = Some w, events = evs\<rparr>
                 | None \<Rightarrow>
                     \<lparr>raised = None, dest_file = Some w,
                      events =
                        (if cb then evs @ [\<lparr>status = ''finished'', downloaded_bytes = d,
                                             total_bytes = 0, percentage = 100, speed = None\<rparr>]
                         else evs)\<rparr>)))"
    using assms
    by (simp add: download_direct_def total_of_def wl split del: if_split cong: option.case_cong)
  have a: "\<forall>ev \<in> set (events ?out).
             total_bytes ev = 0 \<and>
             (status ev = ''downloading'' \<and> percentage ev = 0 \<or>
              status ev = ''finished'' \<and> percentage ev = 100)"
    unfolding out using dl by (auto simp: failed_def split: option.splits)
  have b: "dest_file ?out = Some (stream_bytes ?items) \<and>
           (if cb
            then \<exists>evs. events ?out = evs @ [?fin] \<and>
                   (\<forall>ev \<in> set evs. status ev = ''downloading'' \<and> percentage ev = 0)
            else events ?out = [])"
    if "raised ?out = None"
  proof -
    from that have m: "makedirs fs ?dir = None" and o: "open_wb fs output_path = None"
      and r: "r = None"
      unfolding out by (auto simp: failed_def split: option.splits)
    from write_loop_completed [OF wl [unfolded r]]
    have w: "w = stream_bytes ?items" and d: "d = ?n" and e: "\<not> cb \<longrightarrow> evs = []"
      by simp_all
    show ?thesis
      unfolding out using dl e by (simp add: m o r w d)
  qed
  have c: "raised ?out = None"
    if "makedirs fs ?dir = None" "open_wb fs output_path = None"
      "\<forall>w c. write_chunk fs w c = None" "\<forall>e. StreamError e \<notin> set ?items"
      "\<forall>k d. 0 \<le> d \<and> d \<le> ?n \<longrightarrow> (\<exists>s. speed_of d (clock k) = Inr s)"
  proof -
    from that(5) have "\<forall>k n. 0 \<le> n \<and> n \<le> 0 + int (length (stream_bytes ?items))
           \<longrightarrow> (\<exists>s. speed_of n (clock k) = Inr s)"
      by simp
    from write_loop_succeeds [OF that(3,4) this, of cb "[]" "[]"] wl have "r = None"
      by simp
    with that(1,2) show ?thesis
      unfolding out by simp
  qed
  show ?thesis
    unfolding Let_def using a b c by blast
qed

theorem no_content_length_witness:
  "raised (download_direct
             (\<lambda>v. Inr (stream_response None [Chunk ''ab'', Chunk [], Chunk ''c'']))
             fs_ok (\<lambda>k. 1) ''https://cdn.example.com/a.mp3'' ''out/a.mp3'' True) = None \<and>
   dest_file (download_direct
             (\<lambda>v. Inr (stream_response None [Chunk ''ab'', Chunk [], Chunk ''c'']))
             fs_ok (\<lambda>k. 1) ''https://cdn.example.com/a.mp3'' ''out/a.mp3'' True) = Some ''abc'' \<and>
   (\<exists>evs. events (download_direct
             (\<lambda>v. Inr (stream_response None [Chunk ''ab'', Chunk [], Chunk ''c'']))
             fs_ok (\<lambda>k. 1) ''https://cdn.example.com/a.mp3'' ''out/a.mp3'' True)
             = evs @ [\<lparr>status = ''finished'', downloaded_bytes = 3, total_bytes = 0,
                        percentage = 100, speed = None\<rparr>] \<and>
          list_all (\<lambda>ev. status ev = ''downloading'' \<and> percentage ev = 0) evs)"
proof -
  let ?items = "[Chunk ''ab'', Chunk [], Chunk ''c'']"
  let ?resp = "stream_response None ?items"
  let ?get = "\<lambda>v :: string. (Inr ?resp :: response result)"
  let ?clock = "\<lambda>k :: nat. (1 :: rat)"
  let ?u = "''https://cdn.example.com/a.mp3''"
  let ?out = "download_direct ?get fs_ok ?clock ?u ''out/a.mp3'' True"
  have g: "?get ?u = Inr ?resp" and st: "status_code ?resp = 200"
    and cl: "content_length ?resp = None" and it: "iter_content ?resp = ?items"
    by (simp_all add: stream_response_def)
  have n: "int (length (stream_bytes (iter_content ?resp))) = 3"
    by (simp add: it)
  have b: "stream_bytes (iter_content ?resp) = ''abc''"
    by (simp add: it)
  have s0: "speed_of 0 1 = Inr 0" and s1: "speed_of 1 1 = Inr 1"
    and s2: "speed_of 2 1 = Inr 2" and s3: "speed_of 3 1 = Inr 3"
    by code_simp+
  have sp: "\<forall>k d. 0 \<le> d \<and> d \<le> int (length (stream_bytes (iter_content ?resp)))
              \<longrightarrow> (\<exists>s. speed_of d (?clock k) = Inr s)"
    unfolding n
  proof (intro allI impI)
    fix k :: nat and d :: int
    assume "0 \<le> d \<and> d \<le> 3"
    then have "d = 0 \<or> d = 1 \<or> d = 2 \<or> d = 3"
      by arith
    with s0 s1 s2 s3 show "\<exists>s. speed_of d 1 = Inr s"
      by auto
  qed
  have fs: "makedirs fs_ok (if dirname ''out/a.mp3'' \<noteq> [] then dirname ''out/a.mp3'' else ''.'') = None"
    "open_wb fs_ok ''out/a.mp3'' = None" "\<forall>w c. write_chunk fs_ok w c = None"
    by (simp_all add: fs_ok_def)
  have ns: "\<forall>e. StreamError e \<notin> set (iter_content ?resp)"
    by (simp add: it)
  note t = no_content_length [where http_get = ?get and u = ?u and resp = ?resp
      and fs = fs_ok and clock = ?clock and output_path = "''out/a.mp3''" and cb = True,
      OF g st cl, unfolded Let_def]
  from t [THEN conjunct2, THEN conjunct2] fs ns sp have r: "raised ?out = None"
    by blast
  from t [THEN conjunct2, THEN conjunct1] r
  have "dest_file ?out = Some (stream_bytes (iter_content ?resp)) \<and>
        (\<exists>evs. events ?out = evs @ [\<lparr>status = ''finished'',
               downloaded_bytes = int (length (stream_bytes (iter_content ?resp))),
               total_bytes = 0, percentage = 100, speed = None\<rparr>] \<and>
           (\<forall>ev \<in> set evs. status ev = ''downloading'' \<and> percentage ev = 0))"
    by simp
  then have "dest_file ?out = Some ''abc'' \<and>
        (\<exists>evs. events ?out = evs @ [\<lparr>status = ''finished'', downloaded_bytes = 3,
               total_bytes = 0, percentage = 100, speed = None\<rparr>] \<and>
           list_all (\<lambda>ev. status ev = ''downloading'' \<and> percentage ev = 0) evs)"
    unfolding n b by (simp add: list_all_iff)
  with r show ?thesis
    by blast
qed

theorem finished_percentage_counterexample:
  "download_direct
     (\<lambda>v. Inr (stream_response None [Chunk ''ab'']))
     fs_ok (\<lambda>k. 1) ''https://cdn.example.com/a.mp3'' ''out/a.mp3'' True =
     \<lparr>raised = None, dest_file = Some ''ab'',
      events =
        [\<lparr>status = ''downloading'', downloaded_bytes = 2, total_bytes = 0,
           percentage = 0, speed = Some 2\<rparr>,
         \<lparr>status = ''finished'', downloaded_bytes = 2, total_bytes = 0,
           percentage = 100, speed = None\<rparr>]\<rparr> \<and>
   content_length (stream_response None [Chunk ''ab'']) = None"
proof (rule conjI)
  show "content_length (stream_response None [Chunk ''ab'']) = None"
    by (simp add: stream_response_def)
qed code_simp

section \<open>The vendor API client: claims\<close>

lemma spotify_track_call:
  assumes "parse_spotify_url urlparse u = Some (''track'', obj_id)" "obj_id \<noteq> []"
    and "get_auth_headers env net = (Inr headers, made)"
    and "net (ApiGet (''/tracks/'' @ obj_id) headers) = Inr resp"
    and "status_code resp = 200" "resp_json resp = Inr data"
  shows "spotify_extract_info env net urlparse u =
           (track_record data empty_info, made @ [ApiGet (''/tracks/'' @ obj_id) headers])"
  using assms by (simp add: spotify_extract_info_def api_call_def)

lemma get_auth_headers_bearer:
  "env_truthy (bearer_token env) \<Longrightarrow>
     get_auth_headers env net = (Inr (JStr (the (bearer_token env))), [])"
  by (simp add: get_auth_headers_def)

lemma api_call_log: "snd (api_call net headers resource mapping) = [ApiGet resource headers]"
  by (simp add: api_call_def Let_def split: sum.splits)

lemma extract_log_authenticated:
  assumes "get_auth_headers env net = (Inr headers, made)"
  shows "set (snd (spotify_extract_info env net urlparse u)) \<subseteq> set made \<union> range (\<lambda>r. ApiGet r headers)"
  using assms
  by (auto simp: spotify_extract_info_def api_call_log Let_def split_beta
      split: option.splits prod.splits sum.splits if_splits)

lemma parse_track_abc:
  "parse_spotify_url (\<lambda>v. Inr \<lparr>netloc = ''open.spotify.com'', path = ''/track/abc''\<rparr>) v
     = Some (''track'', ''abc'')"
  by code_simp

text \<open>
  Claim C4. For a track URL and a bearer token from the configuration, a track resource
  answered with status 200 that carries \<open>duration_ms\<close> 210000 and a preview URL gives a
  record whose duration is \<open>210\<close> and whose formats are exactly one entry, with
  \<open>format_id\<close> \<open>preview\<close> and \<open>ext\<close> \<open>mp3\<close>; the record is returned whenever the artists and
  the album images of the resource map without error.
\<close>

theorem track_preview_record:
  assumes "env_truthy (bearer_token env)"
    and "parse_spotify_url urlparse u = Some (''track'', obj_id)" "obj_id \<noteq> []"
    and "net (ApiGet (''/tracks/'' @ obj_id) (JStr (the (bearer_token env)))) = Inr resp"
    and "status_code resp = 200" "resp_json resp = Inr (JObj kvs)"
    and "map_of kvs ''duration_ms'' = Some (JInt 210000)"
    and "map_of kvs ''preview_url'' = Some pv" "truthy pv"
  shows "(\<forall>i. fst (spotify_extract_info env net urlparse u) = Inr i \<longrightarrow>
            duration i = JInt 210 \<and>
            formats i = [\<lparr>format_id = JStr ''preview'', ext = ''mp3'', url = pv\<rparr>]) \<and>
         (\<forall>upl thumb. track_uploader (JObj kvs) = Inr upl \<and> track_thumbnail (JObj kvs) JNull = Inr thumb
            \<longrightarrow> (\<exists>i. fst (spotify_extract_info env net urlparse u) = Inr i))"
proof -
  have auth: "get_auth_headers env net = (Inr (JStr (the (bearer_token env))), [])"
    using assms(1) by (simp add: get_auth_headers_def)
  have call: "fst (spotify_extract_info env net urlparse u) = track_record (JObj kvs) empty_info"
    using spotify_track_call [OF assms(2,3) auth assms(4-6)] by simp
  have "\<forall>i. track_record (JObj kvs) empty_info = Inr i \<longrightarrow>
            duration i = JInt 210 \<and>
            formats i = [\<lparr>format_id = JStr ''preview'', ext = ''mp3'', url = pv\<rparr>]"
    using assms(7-9)
    by (auto simp: track_record_def ms_to_seconds_210000 and_then_def empty_info_def
        split: sum.splits)
  moreover have "\<forall>upl thumb. track_uploader (JObj kvs) = Inr upl \<and> track_thumbnail (JObj kvs) JNull = Inr thumb
            \<longrightarrow> (\<exists>i. track_record (JObj kvs) empty_info = Inr i)"
    using assms(7-9)
    by (auto simp: track_record_def ms_to_seconds_210000 empty_info_def)
  ultimately show ?thesis
    unfolding call by blast
qed

theorem track_preview_record_witness:
  "fst (spotify_extract_info
          \<lparr>bearer_token = Some ''tok'', client_id = None, client_secret = None\<rparr>
          (\<lambda>rq. Inr (json_response 200 (JObj
             [(''name'', JStr ''Song''),
              (''artists'', JArr [JObj [(''name'', JStr ''A'')], JObj [(''name'', JStr ''B'')]]),
              (''album'', JObj [(''images'', JArr [JObj [(''url'', JStr ''https://i.scdn.co/1'')]])]),
              (''duration_ms'', JInt 210000),
              (''preview_url'', JStr ''https://p.scdn.co/mp3-preview/abc'')])))
          (\<lambda>v. Inr \<lparr>netloc = ''open.spotify.com'', path = ''/track/abc''\<rparr>)
          ''https://open.spotify.com/track/abc'')
     = Inr \<lparr>title = JStr ''Song'', thumbnail = JStr ''https://i.scdn.co/1'',
            uploader = JStr ''A, B'', duration = JInt 210,
            formats = [\<lparr>format_id = JStr ''preview'', ext = ''mp3'',
                         url = JStr ''https://p.scdn.co/mp3-preview/abc''\<rparr>]\<rparr>"
proof -
  let ?env = "\<lparr>bearer_token = Some ''tok'', client_id = None, client_secret = None\<rparr>"
  let ?kvs = "[(''name'', JStr ''Song''),
              (''artists'', JArr [JObj [(''name'', JStr ''A'')], JObj [(''name'', JStr ''B'')]]),
              (''album'', JObj [(''images'', JArr [JObj [(''url'', JStr ''https://i.scdn.co/1'')]])]),
              (''duration_ms'', JInt 210000),
              (''preview_url'', JStr ''https://p.scdn.co/mp3-preview/abc'')]"
  let ?net = "\<lambda>rq :: request. (Inr (json_response 200 (JObj ?kvs)) :: response result)"
  let ?up = "\<lambda>v :: string. (Inr \<lparr>netloc = ''open.spotify.com'', path = ''/track/abc''\<rparr> :: string + url_parts)"
  let ?u = "''https://open.spotify.com/track/abc''"
  let ?r = "fst (spotify_extract_info ?env ?net ?up ?u)"
  have b: "env_truthy (bearer_token ?env)"
    by (simp add: env_truthy_def)
  have n: "?net (ApiGet (''/tracks/'' @ ''abc'') (JStr (the (bearer_token ?env))))
             = Inr (json_response 200 (JObj ?kvs))"
    by simp
  have up: "track_uploader (JObj ?kvs) = Inr (JStr ''A, B'')"
    by (simp add: track_uploader_def py_iter_def py_join_def truthy_def)
  have th: "track_thumbnail (JObj ?kvs) JNull = Inr (JStr ''https://i.scdn.co/1'')"
    by (simp add: track_thumbnail_def first_image_def py_first_def truthy_def)
  have t: "(\<forall>i. ?r = Inr i \<longrightarrow> duration i = JInt 210 \<and>
               formats i = [\<lparr>format_id = JStr ''preview'', ext = ''mp3'',
                              url = JStr ''https://p.scdn.co/mp3-preview/abc''\<rparr>]) \<and>
           (\<forall>upl thumb. track_uploader (JObj ?kvs) = Inr upl \<and> track_thumbnail (JObj ?kvs) JNull = Inr thumb
              \<longrightarrow> (\<exists>i. ?r = Inr i))"
    by (rule track_preview_record [OF b parse_track_abc [of ?u] _ n])
       (simp_all add: json_response_def truthy_def)
  then obtain i where i: "?r = Inr i"
    using up th by blast
  with t have d: "duration i = JInt 210"
    and f: "formats i = [\<lparr>format_id = JStr ''preview'', ext = ''mp3'',
                              url = JStr ''https://p.scdn.co/mp3-preview/abc''\<rparr>]"
    by blast+
  have call: "?r = track_record (JObj ?kvs) empty_info"
    using spotify_track_call [OF parse_track_abc [of ?u] _ get_auth_headers_bearer [OF b] n]
    by (simp add: json_response_def)
  have "title i = JStr ''Song'' \<and> thumbnail i = JStr ''https://i.scdn.co/1'' \<and> uploader i = JStr ''A, B''"
    using i unfolding call
    by (auto simp: track_record_def up th empty_info_def and_then_def split: sum.splits)
  with d f have "i = \<lparr>title = JStr ''Song'', thumbnail = JStr ''https://i.scdn.co/1'',
            uploader = JStr ''A, B'', duration = JInt 210,
            formats = [\<lparr>format_id = JStr ''preview'', ext = ''mp3'',
                         url = JStr ''https://p.scdn.co/mp3-preview/abc''\<rparr>]\<rparr>"
    by (cases i) simp
  with i show ?thesis
    by simp
qed

lemma get_access_token_cases:
  assumes "env_truthy (client_id env)" "env_truthy (client_secret env)"
  shows "snd (get_access_token env net)
           = [TokenPost (the (client_id env)) (the (client_secret env))] \<and>
         (\<forall>e. net (TokenPost (the (client_id env)) (the (client_secret env))) = Inl e \<longrightarrow>
            fst (get_access_token env net) = Inl e) \<and>
         (\<forall>resp. net (TokenPost (the (client_id env)) (the (client_secret env))) = Inr resp \<and>
            status_code resp \<noteq> 200 \<longrightarrow>
            fst (get_access_token env net)
              = Inl (Exn Exception (''Failed to obtain Spotify token: ''
                  @ str_int (status_code resp) @ '' '' @ resp_text resp))) \<and>
         (\<forall>resp. net (TokenPost (the (client_id env)) (the (client_secret env))) = Inr resp \<and>
            status_code resp = 200 \<longrightarrow>
            fst (get_access_token env net)
              = and_then (resp_json resp) (\<lambda>j. py_get j ''access_token'' JNull))"
  using assms by (auto simp: get_access_token_def Let_def split: sum.splits)

text \<open>
  Claim C7, as amended. A bearer token from the configuration is used as it is and no
  request goes to the token endpoint. Without it the client-credential exchange is tried:
  it fails with the configuration error, before any request, when the id or the secret is
  missing; otherwise it makes one request to the token endpoint and fails with what that
  request raises or with the token error that carries the status and the body, or takes
  the token from the answer. When no header is obtained the embed endpoint is asked next;
  its record has no duration and no formats. When it fails too, the error raised is one
  fixed sentence, that credentials or a bearer token are required, followed by the message
  of the embed failure: it is the same for every authentication failure, whose own message
  is dropped.
\<close>

theorem auth_fallback_chain:
  "(env_truthy (bearer_token env) \<longrightarrow>
      get_auth_headers env net = (Inr (JStr (the (bearer_token env))), []) \<and>
      (\<forall>a b. TokenPost a b \<notin> set (snd (spotify_extract_info env net urlparse u)))) \<and>
   (\<not> env_truthy (bearer_token env) \<longrightarrow>
      get_auth_headers env net = get_access_token env net \<and>
      (\<not> env_truthy (client_id env) \<or> \<not> env_truthy (client_secret env) \<longrightarrow>
         get_access_token env net = (Inl (Exn Exception msg_not_configured), [])) \<and>
      (env_truthy (client_id env) \<and> env_truthy (client_secret env) \<longrightarrow>
         snd (get_access_token env net)
           = [TokenPost (the (client_id env)) (the (client_secret env))] \<and>
         (\<forall>e. net (TokenPost (the (client_id env)) (the (client_secret env))) = Inl e \<longrightarrow>
            fst (get_access_token env net) = Inl e) \<and>
         (\<forall>resp. net (TokenPost (the (client_id env)) (the (client_secret env))) = Inr resp \<and>
            status_code resp \<noteq> 200 \<longrightarrow>
            fst (get_access_token env net)
              = Inl (Exn Exception (''Failed to obtain Spotify token: ''
                  @ str_int (status_code resp) @ '' '' @ resp_text resp))) \<and>
         (\<forall>resp. net (TokenPost (the (client_id env)) (the (client_secret env))) = Inr resp \<and>
            status_code resp = 200 \<longrightarrow>
            fst (get_access_token env net)
              = and_then (resp_json resp) (\<lambda>j. py_get j ''access_token'' JNull)))) \<and>
   (\<forall>rtype obj_id e made.
      parse_spotify_url urlparse u = Some (rtype, obj_id) \<and> rtype \<noteq> [] \<and> obj_id \<noteq> [] \<and>
      get_auth_headers env net = (Inl e, made) \<longrightarrow>
        snd (spotify_extract_info env net urlparse u) = made @ [OEmbedGet u] \<and>
        (\<forall>oe. and_then (net (OEmbedGet u)) oembed_record = Inl oe \<longrightarrow>
           fst (spotify_extract_info env net urlparse u) =
             Inl (Exn Exception (msg_credentials @ exn_str oe))) \<and>
        (\<forall>i. and_then (net (OEmbedGet u)) oembed_record = Inr i \<longrightarrow>
           fst (spotify_extract_info env net urlparse u) = Inr i \<and>
           duration i = JNull \<and> formats i = []))"
proof (intro conjI impI allI)
  assume b: "env_truthy (bearer_token env)"
  show "get_auth_headers env net = (Inr (JStr (the (bearer_token env))), [])"
    using b by (rule get_auth_headers_bearer)
  fix a c
  show "TokenPost a c \<notin> set (snd (spotify_extract_info env net urlparse u))"
    using extract_log_authenticated [OF get_auth_headers_bearer [OF b], where urlparse = urlparse and u = u]
    by auto
next
  assume "\<not> env_truthy (bearer_token env)"
  then show "get_auth_headers env net = get_access_token env net"
    by (simp add: get_auth_headers_def)
next
  assume "\<not> env_truthy (client_id env) \<or> \<not> env_truthy (client_secret env)"
  then show "get_access_token env net = (Inl (Exn Exception msg_not_configured), [])"
    by (auto simp: get_access_token_def)
next
  assume c: "env_truthy (client_id env) \<and> env_truthy (client_secret env)"
  note t = get_access_token_cases [OF conjunct1 [OF c] conjunct2 [OF c], of net]
  show "snd (get_access_token env net)
           = [TokenPost (the (client_id env)) (the (client_secret env))]"
    using t by (rule conjunct1)
  {
    fix e
    assume "net (TokenPost (the (client_id env)) (the (client_secret env))) = Inl e"
    with t show "fst (get_access_token env net) = Inl e"
      by blast
  }
  {
    fix resp
    assume "net (TokenPost (the (client_id env)) (the (client_secret env))) = Inr resp \<and>
            status_code resp \<noteq> 200"
    with t show "fst (get_access_token env net)
              = Inl (Exn Exception (''Failed to obtain Spotify token: ''
                  @ str_int (status_code resp) @ '' '' @ resp_text resp))"
      by blast
  }
  {
    fix resp
    assume "net (TokenPost (the (client_id env)) (the (client_secret env))) = Inr resp \<and>
            status_code resp = 200"
    with t show "fst (get_access_token env net)
              = and_then (resp_json resp) (\<lambda>j. py_get j ''access_token'' JNull)"
      by blast
  }
next
  fix rtype obj_id e made
  assume h: "parse_spotify_url urlparse u = Some (rtype, obj_id) \<and> rtype \<noteq> [] \<and> obj_id \<noteq> [] \<and>
      get_auth_headers env net = (Inl e, made)"
  then show "snd (spotify_extract_info env net urlparse u) = made @ [OEmbedGet u]"
    by (simp add: spotify_extract_info_def)
  {
    fix oe
    assume "and_then (net (OEmbedGet u)) oembed_record = Inl oe"
    with h show "fst (spotify_extract_info env net urlparse u) =
             Inl (Exn Exception (msg_credentials @ exn_str oe))"
      by (simp add: spotify_extract_info_def oembed_fallback_def)
  }
  {
    fix i
    assume r: "and_then (net (OEmbedGet u)) oembed_record = Inr i"
    with h show "fst (spotify_extract_info env net urlparse u) = Inr i"
      by (simp add: spotify_extract_info_def oembed_fallback_def)
    from r show "duration i = JNull"
      by (auto simp: oembed_record_def and_then_def empty_info_def split: sum.splits if_splits)
    from r show "formats i = []"
      by (auto simp: oembed_record_def and_then_def empty_info_def split: sum.splits if_splits)
  }
qed

text \<open>
  Claim C10. An authenticated track extraction whose track resource has no \<open>duration_ms\<close>
  field sets the duration of the record to \<open>0\<close>, it does not leave it unset: every record
  returned has duration \<open>0\<close>, and a record is returned whenever the artists and the album
  images of the resource map without error.
\<close>

theorem track_without_duration_ms:
  assumes "parse_spotify_url urlparse u = Some (''track'', obj_id)" "obj_id \<noteq> []"
    and "get_auth_headers env net = (Inr headers, made)"
    and "net (ApiGet (''/tracks/'' @ obj_id) headers) = Inr resp"
    and "status_code resp = 200" "resp_json resp = Inr (JObj kvs)"
    and "map_of kvs ''duration_ms'' = None"
  shows "(\<forall>i. fst (spotify_extract_info env net urlparse u) = Inr i \<longrightarrow> duration i = JInt 0) \<and>
         (\<forall>upl thumb. track_uploader (JObj kvs) = Inr upl \<and> track_thumbnail (JObj kvs) JNull = Inr thumb
            \<longrightarrow> (\<exists>i. fst (spotify_extract_info env net urlparse u) = Inr i))"
proof -
  have call: "fst (spotify_extract_info env net urlparse u) = track_record (JObj kvs) empty_info"
    using spotify_track_call [OF assms(1-6)] by simp
  have "\<forall>i. track_record (JObj kvs) empty_info = Inr i \<longrightarrow> duration i = JInt 0"
    using assms(7)
    by (auto simp: track_record_def ms_to_seconds_0 and_then_def split: sum.splits)
  moreover have "\<forall>upl thumb. track_uploader (JObj kvs) = Inr upl \<and> track_thumbnail (JObj kvs) JNull = Inr thumb
            \<longrightarrow> (\<exists>i. track_record (JObj kvs) empty_info = Inr i)"
    using assms(7)
    by (auto simp: track_record_def ms_to_seconds_0 empty_info_def)
  ultimately show ?thesis
    unfolding call by blast
qed

theorem track_without_duration_ms_witness:
  "map_of [(''name'', JStr ''Song'')] ''duration_ms'' = None \<and>
   (\<exists>i. fst (spotify_extract_info
             \<lparr>bearer_token = Some ''tok'', client_id = None, client_secret = None\<rparr>
             (\<lambda>rq. Inr (json_response 200 (JObj [(''name'', JStr ''Song'')])))
             (\<lambda>v. Inr \<lparr>netloc = ''open.spotify.com'', path = ''/track/abc''\<rparr>)
             ''https://open.spotify.com/track/abc'') = Inr i \<and> duration i = JInt 0)"
proof -
  let ?env = "\<lparr>bearer_token = Some ''tok'', client_id = None, client_secret = None\<rparr>"
  let ?kvs = "[(''name'', JStr ''Song'')]"
  let ?net = "\<lambda>rq :: request. (Inr (json_response 200 (JObj ?kvs)) :: response result)"
  let ?up = "\<lambda>v :: string. (Inr \<lparr>netloc = ''open.spotify.com'', path = ''/track/abc''\<rparr> :: string + url_parts)"
  let ?u = "''https://open.spotify.com/track/abc''"
  have a: "get_auth_headers ?env ?net = (Inr (JStr ''tok''), [])"
    by (simp add: get_auth_headers_def env_truthy_def)
  have n: "?net (ApiGet (''/tracks/'' @ ''abc'') (JStr ''tok'')) = Inr (json_response 200 (JObj ?kvs))"
    by simp
  have d: "map_of ?kvs ''duration_ms'' = None"
    by simp
  have r: "track_uploader (JObj ?kvs) = Inr JNull \<and> track_thumbnail (JObj ?kvs) JNull = Inr JNull"
    by (simp add: track_uploader_def track_thumbnail_def py_iter_def first_image_def truthy_def)
  note t = track_without_duration_ms [OF parse_track_abc [of ?u] _ a n _ _ d]
  have "(\<forall>i. fst (spotify_extract_info ?env ?net ?up ?u) = Inr i \<longrightarrow> duration i = JInt 0) \<and>
        (\<forall>upl thumb. track_uploader (JObj ?kvs) = Inr upl \<and> track_thumbnail (JObj ?kvs) JNull = Inr thumb
            \<longrightarrow> (\<exists>i. fst (spotify_extract_info ?env ?net ?up ?u) = Inr i))"
    by (rule t) (simp_all add: json_response_def)
  with r d show ?thesis
    by blast
qed

theorem auth_cause_dropped_counterexample:
  "get_auth_headers
     \<lparr>bearer_token = None, client_id = Some ''id'', client_secret = Some ''secret''\<rparr>
     (\<lambda>rq. case rq of
        TokenPost a b \<Rightarrow> Inr (page_response 401 ''bad client'')
      | OEmbedGet v \<Rightarrow> Inr (page_response 404 ''Not Found'')
      | ApiGet r h \<Rightarrow> Inr (json_response 200 (JObj [])))
     = (Inl (Exn Exception ''Failed to obtain Spotify token: 401 bad client''),
        [TokenPost ''id'' ''secret'']) \<and>
   spotify_extract_info
     \<lparr>bearer_token = None, client_id = Some ''id'', client_secret = Some ''secret''\<rparr>
     (\<lambda>rq. case rq of
        TokenPost a b \<Rightarrow> Inr (page_response 401 ''bad client'')
      | OEmbedGet v \<Rightarrow> Inr (page_response 404 ''Not Found'')
      | ApiGet r h \<Rightarrow> Inr (json_response 200 (JObj [])))
     (\<lambda>v. Inr \<lparr>netloc = ''open.spotify.com'', path = ''/track/abc''\<rparr>)
     ''https://open.spotify.com/track/abc''
     = (Inl (Exn Exception (msg_credentials @ ''oEmbed failed: 404 Not Found'')),
        [TokenPost ''id'' ''secret'', OEmbedGet ''https://open.spotify.com/track/abc'']) \<and>
   \<not> py_contains ''Failed to obtain Spotify token: 401 bad client''
       (msg_credentials @ ''oEmbed failed: 404 Not Found'') \<and>
   \<not> py_contains ''401'' (msg_credentials @ ''oEmbed failed: 404 Not Found'')"
proof (intro conjI)
  show "\<not> py_contains ''Failed to obtain Spotify token: 401 bad client''
       (msg_credentials @ ''oEmbed failed: 404 Not Found'')"
    by (simp add: msg_credentials_def py_startswith_eval)
  show "\<not> py_contains ''401'' (msg_credentials @ ''oEmbed failed: 404 Not Found'')"
    by (simp add: msg_credentials_def py_startswith_eval)
qed code_simp+


theorem auth_fallback_chain_witness:
  "snd (spotify_extract_info
          \<lparr>bearer_token = Some ''tok'', client_id = Some ''id'', client_secret = Some ''secret''\<rparr>
          (\<lambda>rq. Inr (json_response 200 (JObj [])))
          (\<lambda>v. Inr \<lparr>netloc = ''open.spotify.com'', path = ''/track/abc''\<rparr>)
          ''https://open.spotify.com/track/abc'')
     = [ApiGet ''/tracks/abc'' (JStr ''tok'')] \<and>
   get_auth_headers
     \<lparr>bearer_token = None, client_id = Some ''id'', client_secret = Some ''secret''\<rparr>
     (\<lambda>rq. Inr (json_response 200 (JObj [(''access_token'', JStr ''abc'')])))
     = (Inr (JStr ''abc''), [TokenPost ''id'' ''secret'']) \<and>
   get_auth_headers
     \<lparr>bearer_token = None, client_id = Some ''id'', client_secret = Some ''secret''\<rparr>
     (\<lambda>rq. Inr (page_response 401 ''bad client''))
     = (Inl (Exn Exception ''Failed to obtain Spotify token: 401 bad client''),
        [TokenPost ''id'' ''secret'']) \<and>
   spotify_extract_info
          \<lparr>bearer_token = None, client_id = Some ''id'', client_secret = None\<rparr>
          (\<lambda>rq. Inr (page_response 404 ''Not Found''))
          (\<lambda>v. Inr \<lparr>netloc = ''open.spotify.com'', path = ''/track/abc''\<rparr>)
          ''https://open.spotify.com/track/abc''
     = (Inl (Exn Exception (msg_credentials @ ''oEmbed failed: 404 Not Found'')),
        [OEmbedGet ''https://open.spotify.com/track/abc''])"
proof -
  let ?up = "\<lambda>v :: string. (Inr \<lparr>netloc = ''open.spotify.com'', path = ''/track/abc''\<rparr> :: string + url_parts)"
  let ?u = "''https://open.spotify.com/track/abc''"
  let ?env1 = "\<lparr>bearer_token = Some ''tok'', client_id = Some ''id'', client_secret = Some ''secret''\<rparr>"
  let ?net1 = "\<lambda>rq :: request. (Inr (json_response 200 (JObj [])) :: response result)"
  let ?env2 = "\<lparr>bearer_token = None, client_id = Some ''id'', client_secret = None\<rparr>"
  let ?net2 = "\<lambda>rq :: request. (Inr (page_response 404 ''Not Found'') :: response result)"
  let ?env3 = "\<lparr>bearer_token = None, client_id = Some ''id'', client_secret = Some ''secret''\<rparr>"
  let ?net3 = "\<lambda>rq :: request.
      (Inr (json_response 200 (JObj [(''access_token'', JStr ''abc'')])) :: response result)"
  let ?net4 = "\<lambda>rq :: request. (Inr (page_response 401 ''bad client'') :: response result)"
  have b: "env_truthy (bearer_token ?env1)"
    by (simp add: env_truthy_def)
  note c1 = auth_fallback_chain [of ?env1 ?net1 ?up ?u, THEN conjunct1, rule_format, OF b]
  have a1: "get_auth_headers ?env1 ?net1 = (Inr (JStr ''tok''), [])"
    using c1 [THEN conjunct1] by simp
  have l1: "snd (spotify_extract_info ?env1 ?net1 ?up ?u) = [ApiGet ''/tracks/abc'' (JStr ''tok'')]"
    using spotify_track_call [OF parse_track_abc [of ?u] _ a1, of "json_response 200 (JObj [])" "JObj []"]
    by (simp add: json_response_def)
  have nb3: "\<not> env_truthy (bearer_token ?env3)"
    and cs3: "env_truthy (client_id ?env3) \<and> env_truthy (client_secret ?env3)"
    by (simp_all add: env_truthy_def)
  note t3 = auth_fallback_chain [of ?env3 ?net3 ?up ?u, THEN conjunct2, THEN conjunct1,
      rule_format, OF nb3]
  note g3 = t3 [THEN conjunct2, THEN conjunct2, rule_format, OF cs3]
  have r3: "?net3 (TokenPost (the (client_id ?env3)) (the (client_secret ?env3)))
              = Inr (json_response 200 (JObj [(''access_token'', JStr ''abc'')])) \<and>
            status_code (json_response 200 (JObj [(''access_token'', JStr ''abc'')])) = 200"
    by (simp add: json_response_def)
  have a3: "get_auth_headers ?env3 ?net3 = (Inr (JStr ''abc''), [TokenPost ''id'' ''secret''])"
    using t3 [THEN conjunct1] g3 [THEN conjunct1]
      g3 [THEN conjunct2, THEN conjunct2, THEN conjunct2, rule_format, OF r3]
    by (simp add: prod_eq_iff json_response_def)
  note t4 = auth_fallback_chain [of ?env3 ?net4 ?up ?u, THEN conjunct2, THEN conjunct1,
      rule_format, OF nb3]
  note g4 = t4 [THEN conjunct2, THEN conjunct2, rule_format, OF cs3]
  have r4: "?net4 (TokenPost (the (client_id ?env3)) (the (client_secret ?env3)))
              = Inr (page_response 401 ''bad client'') \<and>
            status_code (page_response 401 ''bad client'') \<noteq> 200"
    by (simp add: page_response_def)
  have a4: "get_auth_headers ?env3 ?net4
              = (Inl (Exn Exception ''Failed to obtain Spotify token: 401 bad client''),
                 [TokenPost ''id'' ''secret''])"
    using t4 [THEN conjunct1] g4 [THEN conjunct1]
      g4 [THEN conjunct2, THEN conjunct2, THEN conjunct1, rule_format, OF r4]
    by (simp add: prod_eq_iff page_response_def str_int_401)
  have nb: "\<not> env_truthy (bearer_token ?env2)"
    and ns: "\<not> env_truthy (client_id ?env2) \<or> \<not> env_truthy (client_secret ?env2)"
    by (simp_all add: env_truthy_def)
  note c2 = auth_fallback_chain [of ?env2 ?net2 ?up ?u, THEN conjunct2, THEN conjunct1,
      rule_format, OF nb]
  have a2: "get_auth_headers ?env2 ?net2 = (Inl (Exn Exception msg_not_configured), [])"
    using c2 [THEN conjunct1] c2 [THEN conjunct2, THEN conjunct1, rule_format, OF ns]
    by simp
  have oe: "and_then (?net2 (OEmbedGet ?u)) oembed_record
              = Inl (Exn Exception ''oEmbed failed: 404 Not Found'')"
    by (simp add: oembed_record_def page_response_def str_int_404)
  have h: "parse_spotify_url ?up ?u = Some (''track'', ''abc'') \<and> ''track'' \<noteq> [] \<and> ''abc'' \<noteq> [] \<and>
      get_auth_headers ?env2 ?net2 = (Inl (Exn Exception msg_not_configured), [])"
    using parse_track_abc [of ?u] a2 by simp
  note c3 = auth_fallback_chain [of ?env2 ?net2 ?up ?u, THEN conjunct2, THEN conjunct2,
      rule_format, OF h]
  have s2: "snd (spotify_extract_info ?env2 ?net2 ?up ?u) = [OEmbedGet ?u]"
    using c3 [THEN conjunct1] by simp
  have f2: "fst (spotify_extract_info ?env2 ?net2 ?up ?u)
           = Inl (Exn Exception (msg_credentials @ ''oEmbed failed: 404 Not Found''))"
    using c3 [THEN conjunct2, THEN conjunct1, rule_format, OF oe] by simp
  have "spotify_extract_info ?env2 ?net2 ?up ?u
     = (Inl (Exn Exception (msg_credentials @ ''oEmbed failed: 404 Not Found'')), [OEmbedGet ?u])"
    using s2 f2 by (simp add: prod_eq_iff)
  with l1 a3 a4 show ?thesis
    by simp
qed

section \<open>Both extractors: the formats\<close>

subsection \<open>The formats of the two extractors\<close>

lemma no_duplicate_urls_short: "length fs \<le> 1 \<Longrightarrow> no_duplicate_urls fs"
  by (cases fs) (auto simp: no_duplicate_urls_def)

lemma track_record_formats:
  "track_record data empty_info = Inr i \<Longrightarrow> length (formats i) \<le> 1"
  unfolding track_record_def
  by (elim and_then_InrE) (auto simp: empty_info_def)

lemma oembed_fallback_formats: "oembed_fallback net u = Inr i \<Longrightarrow> formats i = []"
  unfolding oembed_fallback_def oembed_record_def
  by (auto simp: empty_info_def split: sum.splits if_splits elim!: and_then_InrE)

lemma spotify_record_cases:
  assumes "fst (spotify_extract_info env net urlparse u) = Inr i"
    and "parse_spotify_url urlparse u = Some (rtype, obj_id)"
  shows "(rtype = ''track'' \<and> (\<exists>data. track_record data empty_info = Inr i)) \<or>
         (rtype = ''album'' \<and> (\<exists>data. album_record data empty_info = Inr i)) \<or>
         (rtype = ''playlist'' \<and> (\<exists>data. playlist_record data empty_info = Inr i)) \<or>
         ((\<exists>e made. get_auth_headers env net = (Inl e, made)) \<and> oembed_fallback net u = Inr i)"
  using assms
  by (auto simp: spotify_extract_info_def api_call_def Let_def
      split: if_splits sum.splits prod.splits elim!: and_then_InrE)


text \<open>
  Claim C1, as amended. Every record returned by the HTML extractor has a formats list in
  which no two entries have the same url, and every entry has a non-empty url. A record
  returned by the vendor API client from the public embed endpoint, or for a resource that
  is neither an album nor a playlist, has at most one format entry, so none with the same
  url twice. The formats of an album or of a playlist are left out: their entries are not
  deduplicated.
\<close>

theorem formats_no_duplicate_urls:
  "(audiomack_extract_info http_get json_loads urlparse u = Inr i \<longrightarrow>
      no_duplicate_urls (formats i) \<and> (\<forall>f \<in> set (formats i). truthy (url f))) \<and>
   (fst (spotify_extract_info env net urlparse' u') = Inr i' \<and>
    parse_spotify_url urlparse' u' = Some (rtype, obj_id) \<and>
    (rtype \<noteq> ''album'' \<and> rtype \<noteq> ''playlist'' \<or> (\<exists>e made. get_auth_headers env net = (Inl e, made)))
      \<longrightarrow> length (formats i') \<le> 1 \<and> no_duplicate_urls (formats i'))"
proof (intro conjI impI)
  assume a: "audiomack_extract_info http_get json_loads urlparse u = Inr i"
  then obtain fs where fs: "formats i = dedup_formats {} fs"
    by (elim audiomack_Inr) (auto dest: extract_from_text_formats)
  show "no_duplicate_urls (formats i)"
    unfolding fs no_duplicate_urls_def
    using dedup_formats_urls [of "{}" fs] by (simp add: distinct_map_filter)
  show "\<forall>f \<in> set (formats i). truthy (url f)"
    unfolding fs using dedup_formats_truthy by blast
next
  assume s: "fst (spotify_extract_info env net urlparse' u') = Inr i' \<and>
    parse_spotify_url urlparse' u' = Some (rtype, obj_id) \<and>
    (rtype \<noteq> ''album'' \<and> rtype \<noteq> ''playlist'' \<or> (\<exists>e made. get_auth_headers env net = (Inl e, made)))"
  then have r: "fst (spotify_extract_info env net urlparse' u') = Inr i'"
    and p: "parse_spotify_url urlparse' u' = Some (rtype, obj_id)"
    by simp_all
  have c: "(\<exists>data. track_record data empty_info = Inr i') \<or> oembed_fallback net u' = Inr i'"
  proof (cases "\<exists>e made. get_auth_headers env net = (Inl e, made)")
    case True
    with r p show ?thesis
      by (auto simp: spotify_extract_info_def split: if_splits)
  next
    case False
    with s spotify_record_cases [OF r p] show ?thesis
      by auto
  qed
  then show len: "length (formats i') \<le> 1"
    using track_record_formats oembed_fallback_formats by fastforce
  then show "no_duplicate_urls (formats i')"
    by (rule no_duplicate_urls_short)
qed


theorem formats_no_duplicate_urls_witness:
  \<open>(\<exists>i. audiomack_extract_info
          (\<lambda>v. Inr (page_response 200
             ''<script type="application/ld+json">{"audio":{"url":"http://a.b/x.mp3"}}</script>''))
          (\<lambda>t. if t = ''{"audio":{"url":"http://a.b/x.mp3"}}''
               then Some (JObj [(''audio'', JObj [(''url'', JStr ''http://a.b/x.mp3'')])])
               else None)
          (\<lambda>v. Inr \<lparr>netloc = ''audiomack.com'', path = ''/a/song/b''\<rparr>)
          ''https://audiomack.com/a/song/b'' = Inr i \<and>
        formats i = [\<lparr>format_id = JStr ''audio'', ext = ''mp3'', url = JStr ''http://a.b/x.mp3''\<rparr>] \<and>
        no_duplicate_urls (formats i)) \<and>
   (\<exists>i. fst (spotify_extract_info
          \<lparr>bearer_token = Some ''tok'', client_id = None, client_secret = None\<rparr>
          (\<lambda>rq. Inr (json_response 200 (JObj
             [(''name'', JStr ''Song''),
              (''preview_url'', JStr ''https://p.scdn.co/mp3-preview/t1'')])))
          (\<lambda>v. Inr \<lparr>netloc = ''open.spotify.com'', path = ''/track/abc''\<rparr>)
          ''https://open.spotify.com/track/abc'') = Inr i \<and>
        formats i = [\<lparr>format_id = JStr ''preview'', ext = ''mp3'',
                       url = JStr ''https://p.scdn.co/mp3-preview/t1''\<rparr>] \<and>
        no_duplicate_urls (formats i)) \<and>
   (\<exists>i. fst (spotify_extract_info
          \<lparr>bearer_token = None, client_id = None, client_secret = None\<rparr>
          (\<lambda>rq. Inr (json_response 200 (JObj [(''title'', JStr ''Song'')])))
          (\<lambda>v. Inr \<lparr>netloc = ''open.spotify.com'', path = ''/album/abc''\<rparr>)
          ''https://open.spotify.com/album/abc'') = Inr i \<and>
        formats i = [] \<and> no_duplicate_urls (formats i))\<close>
proof (intro conjI)
  let ?t = \<open>''<script type="application/ld+json">{"audio":{"url":"http://a.b/x.mp3"}}</script>''\<close>
  let ?g = \<open>''{"audio":{"url":"http://a.b/x.mp3"}}''\<close>
  let ?j = "JObj [(''audio'', JObj [(''url'', JStr ''http://a.b/x.mp3'')])]"
  let ?jl = "\<lambda>t. if t = ?g then Some ?j else None"
  let ?up = "\<lambda>v :: string. (Inr \<lparr>netloc = ''audiomack.com'', path = ''/a/song/b''\<rparr> :: string + url_parts)"
  let ?u = "''https://audiomack.com/a/song/b''"
  let ?get = "\<lambda>v :: string. (Inr (page_response 200 ?t) :: response result)"
  let ?f = "\<lparr>format_id = JStr ''audio'', ext = ''mp3'', url = JStr ''http://a.b/x.mp3''\<rparr>"
  let ?i = "\<lparr>title = JStr ''b'', thumbnail = JNull, uploader = JNull, duration = JNull,
             formats = [?f]\<rparr>"
  have b: "re_search match_json_ld ?t = Some ?g"
    by (simp add: match_eval Let_def)
  have s: "py_strip ?g = ?g"
    by code_simp
  have j: "find_json_ld ?jl ?t = ?j"
    unfolding find_json_ld_def b by (simp add: s)
  have a: "apply_json_ld ?j empty_info
             = Inr \<lparr>title = JNull, thumbnail = JNull, uploader = JNull, duration = JNull,
                    formats = [?f]\<rparr>"
    by code_simp
  have m1: "meta_fallback og_title_lit ?t JNull = JNull"
    by (simp add: stage_eval)
  have m2: "meta_fallback og_image_lit ?t JNull = JNull"
    by (simp add: stage_eval)
  have m3: "meta_fallback author_lit ?t JNull = JNull"
    by (simp add: stage_eval)
  have d: "extract_duration ?t JNull = Inr JNull"
    by (simp add: stage_eval)
  have f: "find_direct_audio_urls ?t = [''http://a.b/x.mp3'']"
    by (simp add: stage_eval)
  have x: "direct_format ''http://a.b/x.mp3''
             = \<lparr>format_id = JStr ''mp3'', ext = ''mp3'', url = JStr ''http://a.b/x.mp3''\<rparr>"
    by code_simp
  have e: "audiomack_extract_info ?get ?jl ?up ?u = Inr ?i"
    unfolding page_200 extract_from_text_def j
    by (simp add: a m1 m2 m3 d f x fallback_eval)
  from formats_no_duplicate_urls [where http_get = ?get and json_loads = ?jl
      and urlparse = ?up and u = ?u and i = ?i, THEN conjunct1, rule_format, OF e]
  have "no_duplicate_urls (formats ?i)"
    by (rule conjunct1)
  with e show "\<exists>i. audiomack_extract_info ?get ?jl ?up ?u = Inr i \<and> formats i = [?f] \<and>
      no_duplicate_urls (formats i)"
    by simp
next
  let ?env = "\<lparr>bearer_token = Some ''tok'', client_id = None, client_secret = None\<rparr>"
  let ?net = "\<lambda>rq :: request. (Inr (json_response 200 (JObj
             [(''name'', JStr ''Song''),
              (''preview_url'', JStr ''https://p.scdn.co/mp3-preview/t1'')])) :: response result)"
  let ?up = "\<lambda>v :: string. (Inr \<lparr>netloc = ''open.spotify.com'', path = ''/track/abc''\<rparr> :: string + url_parts)"
  let ?u = "''https://open.spotify.com/track/abc''"
  let ?f = "\<lparr>format_id = JStr ''preview'', ext = ''mp3'',
              url = JStr ''https://p.scdn.co/mp3-preview/t1''\<rparr>"
  let ?i = "\<lparr>title = JStr ''Song'', thumbnail = JNull, uploader = JNull, duration = JInt 0,
             formats = [?f]\<rparr>"
  have e: "fst (spotify_extract_info ?env ?net ?up ?u) = Inr ?i"
    by code_simp
  have p: "parse_spotify_url ?up ?u = Some (''track'', ''abc'')"
    by (rule parse_track_abc)
  have n: "''track'' \<noteq> ''album'' \<and> ''track'' \<noteq> ''playlist''"
    by simp
  from formats_no_duplicate_urls [where env = ?env and net = ?net and urlparse' = ?up
      and u' = ?u and i' = ?i and rtype = "''track''" and obj_id = "''abc''",
      THEN conjunct2, rule_format, OF conjI [OF e conjI [OF p disjI1 [OF n]]]]
  have "no_duplicate_urls (formats ?i)"
    by (rule conjunct2)
  with e show "\<exists>i. fst (spotify_extract_info ?env ?net ?up ?u) = Inr i \<and> formats i = [?f] \<and>
      no_duplicate_urls (formats i)"
    by simp
next
  let ?env = "\<lparr>bearer_token = None, client_id = None, client_secret = None\<rparr>"
  let ?net = "\<lambda>rq :: request. (Inr (json_response 200 (JObj [(''title'', JStr ''Song'')]))
                :: response result)"
  let ?up = "\<lambda>v :: string. (Inr \<lparr>netloc = ''open.spotify.com'', path = ''/album/abc''\<rparr> :: string + url_parts)"
  let ?u = "''https://open.spotify.com/album/abc''"
  let ?i = "\<lparr>title = JStr ''Song'', thumbnail = JNull, uploader = JNull, duration = JNull,
             formats = []\<rparr>"
  have e: "fst (spotify_extract_info ?env ?net ?up ?u) = Inr ?i"
    by code_simp
  have p: "parse_spotify_url ?up ?u = Some (''album'', ''abc'')"
    by code_simp
  have a: "get_auth_headers ?env ?net = (Inl (Exn Exception msg_not_configured), [])"
    by code_simp
  then have n: "\<exists>e made. get_auth_headers ?env ?net = (Inl e, made)"
    by blast
  from formats_no_duplicate_urls [where env = ?env and net = ?net and urlparse' = ?up
      and u' = ?u and i' = ?i and rtype = "''album''" and obj_id = "''abc''",
      THEN conjunct2, rule_format, OF conjI [OF e conjI [OF p disjI2 [OF n]]]]
  have "no_duplicate_urls (formats ?i)"
    by (rule conjunct2)
  with e show "\<exists>i. fst (spotify_extract_info ?env ?net ?up ?u) = Inr i \<and> formats i = [] \<and>
      no_duplicate_urls (formats i)"
    by simp
qed

lemma parse_playlist_p1:
  "parse_spotify_url (\<lambda>v. Inr \<lparr>netloc = ''open.spotify.com'', path = ''/playlist/p1''\<rparr>) v
     = Some (''playlist'', ''p1'')"
  by code_simp

theorem formats_duplicate_counterexample:
  "fst (spotify_extract_info
          \<lparr>bearer_token = Some ''tok'', client_id = None, client_secret = None\<rparr>
          (\<lambda>rq. Inr (json_response 200 (JObj
             [(''name'', JStr ''Mix''),
              (''tracks'', JObj [(''items'', JArr
                 [JObj [(''track'', JObj [(''id'', JStr ''t1''),
                          (''preview_url'', JStr ''https://p.scdn.co/mp3-preview/t1'')])],
                  JObj [(''track'', JObj [(''id'', JStr ''t1''),
                          (''preview_url'', JStr ''https://p.scdn.co/mp3-preview/t1'')])]])])])))
          (\<lambda>v. Inr \<lparr>netloc = ''open.spotify.com'', path = ''/playlist/p1''\<rparr>)
          ''https://open.spotify.com/playlist/p1'')
     = Inr \<lparr>title = JStr ''Mix'', thumbnail = JNull, uploader = JNull, duration = JNull,
            formats =
              [\<lparr>format_id = JStr ''t1'', ext = ''preview'',
                 url = JStr ''https://p.scdn.co/mp3-preview/t1''\<rparr>,
               \<lparr>format_id = JStr ''t1'', ext = ''preview'',
                 url = JStr ''https://p.scdn.co/mp3-preview/t1''\<rparr>]\<rparr> \<and>
   \<not> no_duplicate_urls
       [\<lparr>format_id = JStr ''t1'', ext = ''preview'',
          url = JStr ''https://p.scdn.co/mp3-preview/t1''\<rparr>,
        \<lparr>format_id = JStr ''t1'', ext = ''preview'',
          url = JStr ''https://p.scdn.co/mp3-preview/t1''\<rparr>]"
proof (rule conjI)
  show "\<not> no_duplicate_urls
       [\<lparr>format_id = JStr ''t1'', ext = ''preview'',
          url = JStr ''https://p.scdn.co/mp3-preview/t1''\<rparr>,
        \<lparr>format_id = JStr ''t1'', ext = ''preview'',
          url = JStr ''https://p.scdn.co/mp3-preview/t1''\<rparr>]"
    by (simp add: no_duplicate_urls_def)
qed code_simp

end
